theory Spec2Isabelle
  imports
    Complex_Main
    "HOL-Library.Char_ord"
    "HOL-Library.List_Lexorder"
    "HOL-Library.Product_Lexorder"
    "HOL-Library.Log_Nat"
begin

section \<open>Library values: decimals, errors\<close>

text \<open>
  The blotter pipeline (functions.py) works on a pandas DataFrame whose \<open>pal\<close>,
  \<open>exposure\<close>, \<open>open_liq\<close> and \<open>return\<close> columns hold Python \<open>decimal.Decimal\<close>
  objects.  A finite Decimal is a rational number; the numeric value is what \<open>==\<close>
  compares, so a Decimal is modelled by its value in \<open>rat\<close>.  The special values
  (NaN, Infinity, signed zero) and the exponent limits of the context are not modelled.

  Arithmetic on Decimals rounds the exact result to the precision of the context
  (step 2 sets \<open>decimal.getcontext().prec = 28\<close>; rounding is the default
  ROUND_HALF_EVEN).  The default context traps DivisionByZero and InvalidOperation,
  and the source never changes the traps, so a division by zero raises.
\<close>

datatype error =
    RuntimeError        \<comment> \<open>raised by \<open>df_task\<close> when an eager task rebinds the frame\<close>
  | ValueError          \<comment> \<open>pandas: duplicate categories after a rename, bad date\<close>
  | TypeError           \<comment> \<open>arithmetic on \<open>None\<close>\<close>
  | InvalidOperation    \<comment> \<open>\<open>decimal.InvalidOperation\<close>: bad literal, or \<open>0 / 0\<close>\<close>
  | DivisionByZero      \<comment> \<open>\<open>decimal.DivisionByZero\<close>: \<open>x / 0\<close> with \<open>x \<noteq> 0\<close>\<close>
  | Unsupported         \<comment> \<open>a stage run on a frame of a shape outside the pipeline order\<close>

definition prec :: nat where
  "prec = 28"

definition adjusted :: "rat \<Rightarrow> int" where
  \<comment> \<open>the exponent \<open>e\<close> of the leading digit: \<open>10^e \<le> |x| < 10^(e+1)\<close> for \<open>x \<noteq> 0\<close>\<close>
  "adjusted x = (let (n, d) = quotient_of \<bar>x\<bar>;
                     e = int (floorlog 10 (nat n)) - int (floorlog 10 (nat d))
                 in if 10 powi e \<le> \<bar>x\<bar> then e else e - 1)"

definition round_half_even :: "rat \<Rightarrow> int" where
  "round_half_even q = (let f = \<lfloor>q\<rfloor>; r = q - of_int f
     in if r < 1 / 2 then f else if 1 / 2 < r then f + 1 else if even f then f else f + 1)"

definition context_round :: "rat \<Rightarrow> rat" where
  \<comment> \<open>round to \<open>prec\<close> significant digits, ties to even\<close>
  "context_round x = (if x = 0 then 0 else
     let q = 10 powi (adjusted x - (int prec - 1))
     in of_int (round_half_even (x / q)) * q)"

definition dec_add :: "rat \<Rightarrow> rat \<Rightarrow> rat" where
  "dec_add a b = context_round (a + b)"

definition dec_sub :: "rat \<Rightarrow> rat \<Rightarrow> rat" where
  "dec_sub a b = context_round (a - b)"

definition dec_div :: "rat \<Rightarrow> rat \<Rightarrow> error + rat" where
  "dec_div a b = (if b = 0 then (if a = 0 then Inl InvalidOperation else Inl DivisionByZero)
                  else Inr (context_round (a / b)))"

text \<open>
  A column that \<open>read_csv\<close> reads as \<open>float64\<close> holds binary floating-point numbers.
  Such a number is a rational too, and \<open>decimal.Decimal\<close> applied to a Python \<open>float\<close>
  or \<open>int\<close> converts it exactly, so a float is modelled by its value: \<open>float64 x\<close> is
  the binary64 number nearest to \<open>x\<close> (53 bits, ties to even; the normal range only).
\<close>

definition exponent2 :: "rat \<Rightarrow> int" where
  \<comment> \<open>the binary exponent \<open>e\<close>: \<open>2^e \<le> |x| < 2^(e+1)\<close> for \<open>x \<noteq> 0\<close>\<close>
  "exponent2 x = (let (n, d) = quotient_of \<bar>x\<bar>;
                      e = int (floorlog 2 (nat n)) - int (floorlog 2 (nat d))
                  in if 2 powi e \<le> \<bar>x\<bar> then e else e - 1)"

definition float64 :: "rat \<Rightarrow> rat" where
  "float64 x = (if x = 0 then 0 else
     let q = 2 powi (exponent2 x - 52)
     in of_int (round_half_even (x / q)) * q)"

text \<open>
  Three library functions are parameters of the model.  \<open>Decimal s\<close> is
  \<open>decimal.Decimal\<close> applied to a string: the exact value of the literal \<open>s\<close> (the
  constructor does not round), or \<open>None\<close> when the literal is refused.
  \<open>to_datetime col s\<close> is \<open>pandas.to_datetime(..., yearfirst=True)\<close> on the cell \<open>s\<close> of
  the column \<open>col\<close> (pandas infers one format for the column): the day number, or \<open>None\<close>
  when the cell cannot be parsed.  \<open>csv_number s\<close> is the number the parser of
  \<open>read_csv\<close> reads from the cell \<open>s\<close> when it infers the type of a column: the \<open>int64\<close>
  or the \<open>float64\<close> value, or \<open>None\<close> when the cell is not a number.
\<close>

record pylib =
  Decimal :: "string \<Rightarrow> rat option"
  to_datetime :: "string list \<Rightarrow> string \<Rightarrow> int option"
  csv_number :: "string \<Rightarrow> rat option"

section \<open>The tabular dataset\<close>

text \<open>
  \<open>BlotterCLI.main\<close> calls \<open>read_csv(path, **asdict(PandasReadCSVArgs()))\<close>.  The
  attribute \<open>dtype\<close> of \<open>PandasReadCSVArgs\<close> has no annotation, so it is not a field of
  the dataclass and \<open>asdict\<close> gives the empty dictionary: \<open>read_csv\<close> gets no \<open>dtype\<close>
  and infers the type of every column.  A \<open>pal\<close> or \<open>exposure\<close> column whose cells are
  all numbers is stored as \<open>int64\<close> or \<open>float64\<close>; otherwise it is an object column
  holding the text of the cells.  \<open>date\<close> is text.

  \<open>sector\<close> is text as read; step 2 makes it an ordered categorical whose categories
  are the distinct values in sorted order.  The model writes a sector cell from the start
  as its code, a position in the list of categories the frame carries.  The model
  covers frames without empty cells.  A frame carries its sector categories, whether
  it has a \<open>ticker\<close> column, and its rows in order.
\<close>

datatype cell =
    Number rat      \<comment> \<open>a cell of an \<open>int64\<close> or \<open>float64\<close> column, by its value\<close>
  | Text string     \<comment> \<open>a cell of an object column\<close>

record raw_row =
  r_date :: string
  r_lkid :: string
  r_ticker :: string
  r_analyst :: string
  r_sector :: nat
  r_pal :: cell
  r_exposure :: cell

record row =
  label :: nat            \<comment> \<open>the DataFrame index label of the row\<close>
  index :: nat            \<comment> \<open>column \<open>"index"\<close>, the row_index of the spec\<close>
  date :: int
  lkid :: string
  ticker :: string
  analyst :: string
  sector :: nat
  pal :: "rat option"
  exposure :: "rat option"
  open_liq :: "rat option"
  return :: "rat option"

record 'r table =
  categories :: "string list"
  has_ticker :: bool
  rows :: "'r list"

datatype dataset =
    Raw "raw_row table"               \<comment> \<open>as read: RangeIndex, no \<open>"index"\<close> column\<close>
  | Indexed "(nat \<times> raw_row) table"   \<comment> \<open>after step 1: column \<open>"index"\<close> added\<close>
  | Typed "row table"                 \<comment> \<open>after step 2: parsed columns\<close>

definition sector_name :: "'r table \<Rightarrow> nat \<Rightarrow> string" where
  "sector_name t c = categories t ! c"

section \<open>Utility functions of functions.py\<close>

definition first_alphabetical :: "'a::linorder list \<Rightarrow> 'a" where
  \<comment> \<open>\<open>series.min()\<close>; for the ordered categorical \<open>sector\<close> it is the least code\<close>
  "first_alphabetical series = min_list series"

definition get_first_index_label :: "nat list \<Rightarrow> nat" where
  \<comment> \<open>\<open>group.index[0]\<close>, given the labels of the group\<close>
  "get_first_index_label labels = hd labels"

definition object_sum :: "rat option list \<Rightarrow> rat" where
  \<comment> \<open>groupby \<open>"sum"\<close> on an object column: nulls are skipped, the first value is taken
      as it is, every further value is added with \<open>+\<close>; 0 when nothing is left\<close>
  "object_sum vs = (case map the (filter (\<lambda>v. v \<noteq> None) vs) of
                      [] \<Rightarrow> 0
                    | x # xs \<Rightarrow> foldl dec_add x xs)"

definition series_sum :: "rat option list \<Rightarrow> rat" where
  \<comment> \<open>\<open>Series.agg("sum")\<close> on an object column: nulls are replaced by 0, then the
      values are reduced with \<open>+\<close> from the first one\<close>
  "series_sum vs = (case map (\<lambda>v. case v of None \<Rightarrow> 0 | Some x \<Rightarrow> x) vs of
                      [] \<Rightarrow> 0
                    | x # xs \<Rightarrow> foldl dec_add x xs)"

definition coalesce :: "'a option \<Rightarrow> 'a option \<Rightarrow> 'a option" where
  \<comment> \<open>\<open>DataFrame.update\<close> on one cell: a non-null new value overwrites\<close>
  "coalesce new old = (case new of None \<Rightarrow> old | Some v \<Rightarrow> Some v)"

function str_nat :: "nat \<Rightarrow> string" where
  "str_nat n = (if n < 10 then [char_of (48 + n)]
                else str_nat (n div 10) @ [char_of (48 + n mod 10)])"
  by pat_completeness auto
termination
  by (relation "measure id") auto

definition impute_ticker_symbol :: "row \<Rightarrow> string" where
  "impute_ticker_symbol r = ''ticker_'' @ str_nat (index r)"

section \<open>Steps 1 to 3\<close>

definition step1_rows :: "raw_row list \<Rightarrow> (nat \<times> raw_row) list" where
  \<comment> \<open>\<open>_df.reset_index(inplace=True)\<close>: the RangeIndex of the frame as read becomes
      column \<open>"index"\<close>; the new index is again a RangeIndex\<close>
  "step1_rows rs = zip [0 ..< length rs] rs"

definition rename_categories :: "string \<Rightarrow> string" where
  "rename_categories c = (if c = ''Technology'' then ''Information Technology'' else c)"

fun apply_all :: "('a \<Rightarrow> 'b option) \<Rightarrow> error \<Rightarrow> 'a list \<Rightarrow> error + 'b list" where
  \<comment> \<open>\<open>Series.apply(f)\<close> with a function that may raise: the first failure aborts\<close>
  "apply_all f e [] = Inr []"
| "apply_all f e (x # xs) =
     (case f x of
        None \<Rightarrow> Inl e
      | Some y \<Rightarrow> (case apply_all f e xs of Inl e' \<Rightarrow> Inl e' | Inr ys \<Rightarrow> Inr (y # ys)))"

definition read_csv_column :: "pylib \<Rightarrow> string list \<Rightarrow> cell list" where
  \<comment> \<open>the cells \<open>read_csv\<close> stores for a \<open>pal\<close> or \<open>exposure\<close> column, given the text
      of its cells: numbers when every cell is a number, the text otherwise\<close>
  "read_csv_column lib col =
     (if list_all (\<lambda>s. csv_number lib s \<noteq> None) col
      then map (\<lambda>s. Number (the (csv_number lib s))) col
      else map Text col)"

definition decimal_of_cell :: "pylib \<Rightarrow> cell \<Rightarrow> rat option" where
  \<comment> \<open>\<open>decimal.Decimal\<close> applied to a cell: exact for an \<open>int\<close> or a \<open>float\<close>, the
      constructor's parse for a string\<close>
  "decimal_of_cell lib c = (case c of Number x \<Rightarrow> Some x | Text s \<Rightarrow> Decimal lib s)"

definition typed_row :: "nat \<Rightarrow> nat \<times> raw_row \<Rightarrow> rat \<Rightarrow> rat \<Rightarrow> int \<Rightarrow> row" where
  "typed_row i kr p e d =
     \<lparr>label = i, index = fst kr, date = d, lkid = r_lkid (snd kr), ticker = r_ticker (snd kr),
      analyst = r_analyst (snd kr), sector = r_sector (snd kr),
      pal = Some p, exposure = Some e, open_liq = None, return = None\<rparr>"

fun typed_rows :: "nat \<Rightarrow> (nat \<times> raw_row) list \<Rightarrow> rat list \<Rightarrow> rat list \<Rightarrow> int list \<Rightarrow> row list" where
  "typed_rows i (kr # krs) (p # ps) (e # es) (d # ds) =
     typed_row i kr p e d # typed_rows (Suc i) krs ps es ds"
| "typed_rows i _ _ _ _ = []"

definition step2_table :: "pylib \<Rightarrow> (nat \<times> raw_row) table \<Rightarrow> error + row table" where
  \<comment> \<open>in source order: the sector rename (pandas refuses a rename that makes two
      categories equal), then \<open>pal\<close>, then \<open>exposure\<close>, then \<open>date\<close>\<close>
  "step2_table lib t =
     (let cats = map rename_categories (categories t) in
      if \<not> distinct cats then Inl ValueError else
      case apply_all (decimal_of_cell lib) InvalidOperation (map (r_pal \<circ> snd) (rows t)) of
        Inl e \<Rightarrow> Inl e
      | Inr ps \<Rightarrow>
      (case apply_all (decimal_of_cell lib) InvalidOperation (map (r_exposure \<circ> snd) (rows t)) of
        Inl e \<Rightarrow> Inl e
      | Inr es \<Rightarrow>
      (case apply_all (to_datetime lib (map (r_date \<circ> snd) (rows t))) ValueError
                      (map (r_date \<circ> snd) (rows t)) of
        Inl e \<Rightarrow> Inl e
      | Inr ds \<Rightarrow>
          Inr \<lparr>categories = cats, has_ticker = has_ticker t,
               rows = typed_rows 0 (rows t) ps es ds\<rparr>)))"

definition step3_table :: "row table \<Rightarrow> row table" where
  "step3_table t =
     (if \<not> has_ticker t
      then t\<lparr>has_ticker := True,
             rows := map (\<lambda>r. r\<lparr>ticker := impute_ticker_symbol r\<rparr>) (rows t)\<rparr>
      else t)"

section \<open>Step 4: open liquidity\<close>

text \<open>
  \<open>groupby\<close> yields the groups of the keys that occur in the frame, in key order, and
  the group frames are cut from the frame as it is when the loop starts.  The partition
  view of one (lkid, ticker) group after the collapse by date has one row per date,
  indexed by the date.
\<close>

record agg_row =
  a_date :: int
  a_index :: nat
  a_analyst :: string
  a_sector :: nat
  a_pal :: rat
  a_exposure :: rat
  a_open_liq :: "rat option"

definition groupby_lkid_ticker :: "row list \<Rightarrow> ((string \<times> string) \<times> row list) list" where
  \<comment> \<open>\<open>_executor.groupby(["lkid", "ticker"])\<close>: the groups of the keys that occur, in
      key order, each with its rows in frame order\<close>
  "groupby_lkid_ticker df =
     map (\<lambda>k. (k, filter (\<lambda>r. (lkid r, ticker r) = k) df))
         (sort (remdups (map (\<lambda>r. (lkid r, ticker r)) df)))"

definition agg_date :: "row list \<Rightarrow> int \<Rightarrow> agg_row" where
  "agg_date part d =
     (let g = filter (\<lambda>r. date r = d) part in
      \<lparr>a_date = d,
       a_index = first_alphabetical (map index g),
       a_analyst = first_alphabetical (map analyst g),
       a_sector = first_alphabetical (map sector g),
       a_pal = object_sum (map pal g),
       a_exposure = object_sum (map exposure g),
       a_open_liq = None\<rparr>)"

definition groupby_date_agg :: "row list \<Rightarrow> agg_row list" where
  \<comment> \<open>\<open>_lkid_ticker_df.groupby("date", as_index=True).agg({...})\<close>\<close>
  "groupby_date_agg part = map (agg_date part) (sort (remdups (map date part)))"

definition shift_exposure :: "agg_row list \<Rightarrow> (int \<times> rat) list" where
  \<comment> \<open>\<open>_lkid_ticker_df["exposure"].shift(-1, "D")\<close>: with a frequency, the labels move
      one day back and the values stay\<close>
  "shift_exposure view = map (\<lambda>a. (a_date a - 1, a_exposure a)) view"

definition assign_open_liq :: "agg_row list \<Rightarrow> agg_row list" where
  \<comment> \<open>the assignment aligns the shifted series on the date labels of the view\<close>
  "assign_open_liq view =
     map (\<lambda>a. a\<lparr>a_open_liq := map_of (shift_exposure view) (a_date a)\<rparr>) view"

definition impute_first_day_open_liq :: "agg_row \<Rightarrow> agg_row" where
  "impute_first_day_open_liq a = a\<lparr>a_open_liq := Some (dec_sub (a_exposure a) (a_pal a))\<rparr>"

definition impute_nulls :: "agg_row list \<Rightarrow> agg_row list" where
  \<comment> \<open>\<open>_lkid_ticker_df[is_nan] = _lkid_ticker_df[is_nan].apply(impute_first_day_open_liq)\<close>\<close>
  "impute_nulls view =
     map (\<lambda>a. if a_open_liq a = None then impute_first_day_open_liq a else a) view"

definition partition_view :: "row list \<Rightarrow> agg_row list" where
  "partition_view part = impute_nulls (assign_open_liq (groupby_date_agg part))"

definition update_row4 :: "agg_row list \<Rightarrow> row \<Rightarrow> row" where
  \<comment> \<open>\<open>_df.update(view.set_index("index"))\<close> on one row of \<open>_df\<close>: the view row whose
      \<open>index\<close> is the label of the row overwrites the shared columns\<close>
  "update_row4 view r =
     (case find (\<lambda>a. a_index a = label r) view of
        None \<Rightarrow> r
      | Some a \<Rightarrow> r\<lparr>analyst := a_analyst a, sector := a_sector a,
                     pal := Some (a_pal a), exposure := Some (a_exposure a),
                     open_liq := coalesce (a_open_liq a) (open_liq r)\<rparr>)"

definition step4_rows :: "row list \<Rightarrow> row list \<Rightarrow> row list" where
  \<comment> \<open>\<open>df\<close> is the frame the task writes (after \<open>_df["open_liq"] = None\<close>), \<open>src\<close> the
      frame of the executor at the start of the loop, which the groups are cut from\<close>
  "step4_rows df src =
     foldl (\<lambda>acc (k, part). map (update_row4 (partition_view part)) acc)
           df (groupby_lkid_ticker src)"

definition set_open_liq_none :: "row list \<Rightarrow> row list" where
  "set_open_liq_none df = map (\<lambda>r. r\<lparr>open_liq := None\<rparr>) df"

definition step4_eager :: "row list \<Rightarrow> row list" where
  \<comment> \<open>step 4 when the executor holds the frame the task writes\<close>
  "step4_eager df = step4_rows (set_open_liq_none df) (set_open_liq_none df)"

text \<open>Words of the specification, for the statements about step 4.\<close>

definition wf_frame :: "row list \<Rightarrow> bool" where
  \<comment> \<open>labels and row_index are both the position of the row, as steps 1 to 3 leave them\<close>
  "wf_frame df \<longleftrightarrow> map label df = [0 ..< length df] \<and> map index df = [0 ..< length df]"

definition partition_of :: "row list \<Rightarrow> row \<Rightarrow> row list" where
  "partition_of df r = filter (\<lambda>s. (lkid s, ticker s) = (lkid r, ticker r)) df"

definition same_day :: "row list \<Rightarrow> int \<Rightarrow> row list" where
  "same_day part d = filter (\<lambda>s. date s = d) part"

definition representative :: "row list \<Rightarrow> row \<Rightarrow> bool" where
  \<comment> \<open>the row the same-date rows of its partition collapse to: the least row_index\<close>
  "representative df r \<longleftrightarrow>
     index r = first_alphabetical (map index (same_day (partition_of df r) (date r)))"

definition view_row :: "row list \<Rightarrow> int \<Rightarrow> agg_row" where
  \<comment> \<open>the collapsed row of date \<open>d\<close> of a partition, with its \<open>open_liq\<close>\<close>
  "view_row part d =
     (let a = agg_date part d;
          nxt = filter (\<lambda>r. date r = d + 1) part in
      a\<lparr>a_open_liq :=
           (if nxt \<noteq> [] then Some (object_sum (map exposure nxt))
            else Some (dec_sub (a_exposure a) (a_pal a)))\<rparr>)"

section \<open>Step 5: returns\<close>

definition set_index_return_none :: "row list \<Rightarrow> row list" where
  \<comment> \<open>\<open>_df.set_index("index", drop=True, inplace=True); _df["return"] = None\<close>\<close>
  "set_index_return_none df = map (\<lambda>r. r\<lparr>label := index r, return := None\<rparr>) df"

definition groupby_date :: "row list \<Rightarrow> (int \<times> row list) list" where
  \<comment> \<open>\<open>_executor.groupby("date")\<close>\<close>
  "groupby_date df = map (\<lambda>d. (d, filter (\<lambda>r. date r = d) df)) (sort (remdups (map date df)))"

fun map_err :: "('a \<Rightarrow> error + 'b) \<Rightarrow> 'a list \<Rightarrow> error + 'b list" where
  \<comment> \<open>an element-wise operation that raises at the first element that fails\<close>
  "map_err f [] = Inr []"
| "map_err f (x # xs) =
     (case f x of
        Inl e \<Rightarrow> Inl e
      | Inr y \<Rightarrow> (case map_err f xs of Inl e \<Rightarrow> Inl e | Inr ys \<Rightarrow> Inr (y # ys)))"

definition truediv_row :: "rat \<Rightarrow> row \<Rightarrow> error + row" where
  \<comment> \<open>one cell of \<open>_date_df["return"] = _date_df["pal"] / total_daily_fund\<close>\<close>
  "truediv_row total_daily_fund r =
     (case pal r of
        None \<Rightarrow> Inl TypeError
      | Some p \<Rightarrow> (case dec_div p total_daily_fund of
                     Inl e \<Rightarrow> Inl e
                   | Inr q \<Rightarrow> Inr (r\<lparr>return := Some q\<rparr>)))"

definition update_row5 :: "row list \<Rightarrow> row \<Rightarrow> row" where
  \<comment> \<open>\<open>_df.update(_date_df)\<close> on one row of \<open>_df\<close>: every column the two frames share\<close>
  "update_row5 date_df r =
     (case find (\<lambda>g. label g = label r) date_df of
        None \<Rightarrow> r
      | Some g \<Rightarrow> r\<lparr>date := date g, lkid := lkid g, ticker := ticker g,
                     analyst := analyst g, sector := sector g,
                     pal := coalesce (pal g) (pal r),
                     exposure := coalesce (exposure g) (exposure r),
                     open_liq := coalesce (open_liq g) (open_liq r),
                     return := coalesce (return g) (return r)\<rparr>)"

fun step5_loop :: "(int \<times> row list) list \<Rightarrow> row list \<Rightarrow> error + row list" where
  "step5_loop [] df = Inr df"
| "step5_loop ((d, date_df) # groups) df =
     (let total_daily_fund = series_sum (map open_liq date_df) in
      case map_err (truediv_row total_daily_fund) date_df of
        Inl e \<Rightarrow> Inl e
      | Inr date_df' \<Rightarrow> step5_loop groups (map (update_row5 date_df') df))"

definition step5_rows :: "row list \<Rightarrow> row list \<Rightarrow> error + row list" where
  \<comment> \<open>\<open>df\<close> is the frame the task writes (after \<open>set_index\<close> and \<open>return = None\<close>),
      \<open>src\<close> the frame of the executor at the start of the loop\<close>
  "step5_rows df src = step5_loop (groupby_date src) df"

definition step5_eager :: "row list \<Rightarrow> error + row list" where
  "step5_eager df = step5_rows (set_index_return_none df) (set_index_return_none df)"

section \<open>Step 6: daily aggregation\<close>

record group_row =
  g_date :: int
  g_lkid :: string
  g_analyst :: string
  g_sector :: nat
  g_pal :: rat
  g_exposure :: rat
  g_return :: rat
  g_index :: nat

definition row_group :: "row list \<Rightarrow> int \<times> string \<Rightarrow> row list" where
  "row_group df k = filter (\<lambda>r. (date r, lkid r) = k) df"

definition reset_index :: "row list \<Rightarrow> row list" where
  \<comment> \<open>\<open>_df.reset_index(drop=False, inplace=True)\<close>: the labels (named \<open>"index"\<close> since
      step 5) become column \<open>"index"\<close>, the new labels are the positions\<close>
  "reset_index df = map (\<lambda>(i, r). r\<lparr>index := label r, label := i\<rparr>) (enumerate 0 df)"

definition agg_group :: "row list \<Rightarrow> int \<times> string \<Rightarrow> group_row" where
  "agg_group df k =
     (let g = row_group df k in
      \<lparr>g_date = fst k, g_lkid = snd k,
       g_analyst = first_alphabetical (map analyst g),
       g_sector = first_alphabetical (map sector g),
       g_pal = object_sum (map pal g),
       g_exposure = object_sum (map exposure g),
       g_return = object_sum (map return g),
       g_index = get_first_index_label (map label g)\<rparr>)"

definition group_keys :: "row list \<Rightarrow> (int \<times> string) list" where
  "group_keys df = sort (remdups (map (\<lambda>r. (date r, lkid r)) df))"

definition groupby_date_lkid_agg :: "row list \<Rightarrow> group_row list" where
  \<comment> \<open>\<open>_df.groupby(["date", "lkid"], as_index=False).agg({...})\<close>: one row per group in
      key order; with \<open>as_index=False\<close> the result is labelled by a RangeIndex\<close>
  "groupby_date_lkid_agg df = map (agg_group df) (group_keys df)"

definition set_values_none :: "row list \<Rightarrow> row list" where
  \<comment> \<open>\<open>_df["pal"] = None; _df["exposure"] = None; _df["return"] = None\<close>\<close>
  "set_values_none df = map (\<lambda>r. r\<lparr>pal := None, exposure := None, return := None\<rparr>) df"

definition set_index_index :: "row list \<Rightarrow> row list" where
  \<comment> \<open>\<open>_df.set_index("index", inplace=True)\<close>\<close>
  "set_index_index df = map (\<lambda>r. r\<lparr>label := index r\<rparr>) df"

definition update_row6 :: "group_row list \<Rightarrow> row \<Rightarrow> row" where
  \<comment> \<open>\<open>_df.update(another_df)\<close> on one row of \<open>_df\<close>: \<open>another_df\<close> is labelled
      \<open>0 .. k-1\<close>, so the row labelled \<open>j\<close> takes the values of the \<open>j\<close>-th group\<close>
  "update_row6 another_df r =
     (if label r < length another_df
      then (let g = another_df ! label r in
            r\<lparr>date := g_date g, lkid := g_lkid g, analyst := g_analyst g,
              sector := g_sector g, pal := Some (g_pal g),
              exposure := Some (g_exposure g), return := Some (g_return g)\<rparr>)
      else r)"

definition notnull :: "row \<Rightarrow> bool" where
  \<comment> \<open>the rows \<open>dropna\<close> keeps; the other columns hold no null in the model\<close>
  "notnull r \<longleftrightarrow> pal r \<noteq> None \<and> exposure r \<noteq> None \<and> open_liq r \<noteq> None \<and> return r \<noteq> None"

definition relabel :: "row list \<Rightarrow> row list" where
  "relabel df = map (\<lambda>(i, r). r\<lparr>label := i\<rparr>) (enumerate 0 df)"

definition step6_rows :: "row list \<Rightarrow> row list" where
  "step6_rows df =
     (let df1 = reset_index df;
          another_df = groupby_date_lkid_agg df1;
          df2 = set_index_index (set_values_none df1);
          df3 = map (update_row6 another_df) df2;
          df4 = filter notnull df3;
          df5 = sort_key (\<lambda>r. (lkid r, date r)) df4
      in relabel df5)"

section \<open>Execution context, decorator and pipeline\<close>

text \<open>
  Python objects have identity: \<open>df_task\<close> compares the frame a task returns with the
  frame it was given (\<open>result is not df\<close>), and in eager mode the executor and the task
  share one frame.  The store is a list of datasets, a reference is a position in it,
  and a copy appends a new object.
\<close>

type_synonym heap = "dataset list"

record executor =
  ex_df :: nat            \<comment> \<open>\<open>Executor._df\<close>\<close>
  ex_is_eager :: bool     \<comment> \<open>\<open>PandasExecutor.__is_eager\<close>\<close>

type_synonym task = "heap \<Rightarrow> nat \<Rightarrow> executor \<Rightarrow> error + heap \<times> nat"

type_synonym step = "heap \<Rightarrow> nat \<Rightarrow> executor \<Rightarrow> bool \<Rightarrow> error + heap \<times> nat"

definition copy :: "heap \<Rightarrow> nat \<Rightarrow> heap \<times> nat" where
  \<comment> \<open>\<open>df.copy()\<close>\<close>
  "copy h df = (h @ [h ! df], length h)"

definition df_task :: "task \<Rightarrow> step" where
  "df_task func h df ex eager =
     (let (h1, arg) = (if eager then (h, df) else copy h df) in
      case func h1 arg ex of
        Inl e \<Rightarrow> Inl e
      | Inr (h2, result) \<Rightarrow>
          if eager \<and> result \<noteq> df then Inl RuntimeError else Inr (h2, result))"

definition transform :: "heap \<times> executor \<Rightarrow> step \<Rightarrow> error + heap \<times> nat" where
  "transform st f = f (fst st) (ex_df (snd st)) (snd st) (ex_is_eager (snd st))"

definition update_df :: "executor \<Rightarrow> nat \<Rightarrow> executor" where
  "update_df ex df = ex\<lparr>ex_df := df\<rparr>"

fun run :: "step list \<Rightarrow> heap \<times> executor \<Rightarrow> error + heap \<times> executor" where
  \<comment> \<open>\<open>Pipeline.run\<close>: an exception of a step ends the loop\<close>
  "run [] st = Inr st"
| "run (step # steps) st =
     (case transform st step of
        Inl e \<Rightarrow> Inl e
      | Inr (h, df) \<Rightarrow>
          if ex_is_eager (snd st) then run steps (h, snd st)
          else run steps (h, update_df (snd st) df))"

text \<open>
  The six tasks on the store.  Each is written for the shape of frame it gets in the
  order of \<open>PIPELINE_STEPS\<close>; on another shape the model gives \<open>Unsupported\<close>.  On a
  frame that already has column \<open>"index"\<close>, \<open>reset_index\<close> leaves that column and the
  RangeIndex as they are (the column \<open>"level_0"\<close> it adds is not modelled).
\<close>

definition step1_create_pk :: task where
  "step1_create_pk h df ex =
     (case h ! df of
        Raw t \<Rightarrow> Inr (h[df := Indexed \<lparr>categories = categories t, has_ticker = has_ticker t,
                                        rows = step1_rows (rows t)\<rparr>], df)
      | Indexed t \<Rightarrow> Inr (h, df)
      | Typed t \<Rightarrow> Inl Unsupported)"

definition step2_sector_pal_date :: "pylib \<Rightarrow> task" where
  "step2_sector_pal_date lib h df ex =
     (case h ! df of
        Indexed t \<Rightarrow> (case step2_table lib t of
                        Inl e \<Rightarrow> Inl e
                      | Inr t' \<Rightarrow> Inr (h[df := Typed t'], df))
      | _ \<Rightarrow> Inl Unsupported)"

definition step3_impute_ticker :: task where
  "step3_impute_ticker h df ex =
     (case h ! df of
        Typed t \<Rightarrow> Inr (h[df := Typed (step3_table t)], df)
      | _ \<Rightarrow> Inl Unsupported)"

definition step4_compute_open_liq :: task where
  "step4_compute_open_liq h df ex =
     (case h ! df of
        Typed t \<Rightarrow>
          (let h1 = h[df := Typed (t\<lparr>rows := set_open_liq_none (rows t)\<rparr>)] in
           case h1 ! ex_df ex of
             Typed s \<Rightarrow>
               Inr (h1[df := Typed (t\<lparr>rows := step4_rows (set_open_liq_none (rows t)) (rows s)\<rparr>)],
                    df)
           | _ \<Rightarrow> Inl Unsupported)
      | _ \<Rightarrow> Inl Unsupported)"

definition step5_compute_fund_value :: task where
  "step5_compute_fund_value h df ex =
     (case h ! df of
        Typed t \<Rightarrow>
          (let h1 = h[df := Typed (t\<lparr>rows := set_index_return_none (rows t)\<rparr>)] in
           case h1 ! ex_df ex of
             Typed s \<Rightarrow>
               (case step5_rows (set_index_return_none (rows t)) (rows s) of
                  Inl e \<Rightarrow> Inl e
                | Inr rs \<Rightarrow> Inr (h1[df := Typed (t\<lparr>rows := rs\<rparr>)], df))
           | _ \<Rightarrow> Inl Unsupported)
      | _ \<Rightarrow> Inl Unsupported)"

definition step6_agg_daily :: task where
  "step6_agg_daily h df ex =
     (case h ! df of
        Typed t \<Rightarrow> Inr (h[df := Typed (t\<lparr>rows := step6_rows (rows t)\<rparr>)], df)
      | _ \<Rightarrow> Inl Unsupported)"

definition PIPELINE_STEPS :: "pylib \<Rightarrow> step list" where
  "PIPELINE_STEPS lib =
     [df_task step1_create_pk,
      df_task (step2_sector_pal_date lib),
      df_task step3_impute_ticker,
      df_task step4_compute_open_liq,
      df_task step5_compute_fund_value,
      df_task step6_agg_daily]"

definition main :: "pylib \<Rightarrow> bool \<Rightarrow> raw_row table \<Rightarrow> error + dataset" where
  \<comment> \<open>\<open>BlotterCLI.main\<close> between \<open>read_csv\<close> and \<open>to_csv\<close>: the frame the executor
      holds after the run\<close>
  "main lib eager t =
     (case run (PIPELINE_STEPS lib) ([Raw t], \<lparr>ex_df = 0, ex_is_eager = eager\<rparr>) of
        Inl e \<Rightarrow> Inl e
      | Inr (h, ex) \<Rightarrow> Inr (h ! ex_df ex))"

section \<open>Example data\<close>

definition rebinding_task :: task where
  \<comment> \<open>a task that rebinds the frame, as \<open>df = df.reset_index()\<close> would: it returns a
      new object\<close>
  "rebinding_task h df ex = Inr (copy h df)"

definition raw_example :: "raw_row table" where
  "raw_example =
     \<lparr>categories = [''Materials'', ''Technology''], has_ticker = True,
      rows = [\<lparr>r_date = ''1'', r_lkid = ''A'', r_ticker = ''X'', r_analyst = ''a'',
               r_sector = 1, r_pal = Number 160, r_exposure = Number 100\<rparr>,
              \<lparr>r_date = ''2'', r_lkid = ''A'', r_ticker = ''X'', r_analyst = ''a'',
               r_sector = 0, r_pal = Number 40, r_exposure = Number 80\<rparr>]\<rparr>"

definition typed_example :: "row table" where
  \<comment> \<open>\<open>raw_example\<close> after steps 1 and 2\<close>
  "typed_example =
     \<lparr>categories = [''Materials'', ''Information Technology''], has_ticker = True,
      rows = [\<lparr>label = 0, index = 0, date = 1, lkid = ''A'', ticker = ''X'', analyst = ''a'',
               sector = 1, pal = Some 160, exposure = Some 100, open_liq = None,
               return = None\<rparr>,
              \<lparr>label = 1, index = 1, date = 2, lkid = ''A'', ticker = ''X'', analyst = ''a'',
               sector = 0, pal = Some 40, exposure = Some 80, open_liq = None,
               return = None\<rparr>]\<rparr>"

definition returns_example :: "row list" where
  \<comment> \<open>the rows of \<open>typed_example\<close> after steps 3, 4 and 5\<close>
  "returns_example =
     [\<lparr>label = 0, index = 0, date = 1, lkid = ''A'', ticker = ''X'', analyst = ''a'',
       sector = 1, pal = Some 160, exposure = Some 100, open_liq = Some 80,
       return = Some 2\<rparr>,
      \<lparr>label = 1, index = 1, date = 2, lkid = ''A'', ticker = ''X'', analyst = ''a'',
       sector = 0, pal = Some 40, exposure = Some 80, open_liq = Some 40,
       return = Some 1\<rparr>]"

definition eager_executor :: executor where
  "eager_executor = \<lparr>ex_df = 0, ex_is_eager = True\<rparr>"

definition position :: "nat \<Rightarrow> int \<Rightarrow> string \<Rightarrow> string \<Rightarrow> rat \<Rightarrow> rat \<Rightarrow> row" where
  \<comment> \<open>a row as steps 1 to 3 leave it: label and row_index \<open>i\<close>, analyst \<open>a\<close>, sector code 0\<close>
  "position i d l t p e =
     \<lparr>label = i, index = i, date = d, lkid = l, ticker = t, analyst = ''a'', sector = 0,
      pal = Some p, exposure = Some e, open_liq = None, return = None\<rparr>"

definition blotter_two_days :: "row list" where
  \<comment> \<open>the example of the specification: one partition, two consecutive days\<close>
  "blotter_two_days = [position 0 1 ''A'' ''X'' 10 100, position 1 2 ''A'' ''X'' (- 5) 80]"

definition blotter_gap :: "row list" where
  \<comment> \<open>one partition with a gap: days 1 and 3\<close>
  "blotter_gap = [position 0 1 ''A'' ''X'' 10 100, position 1 3 ''A'' ''X'' (- 5) 80]"

fun nat_of_digits :: "nat \<Rightarrow> string \<Rightarrow> nat option" where
  "nat_of_digits acc [] = Some acc"
| "nat_of_digits acc (c # cs) =
     (if CHR ''0'' \<le> c \<and> c \<le> CHR ''9''
      then nat_of_digits (10 * acc + (of_char c - 48)) cs else None)"

definition integer_literal :: "string \<Rightarrow> int option" where
  "integer_literal s =
     (case s of
        [] \<Rightarrow> None
      | c # cs \<Rightarrow> if c = CHR ''-'' \<and> cs \<noteq> [] then map_option (\<lambda>n. - int n) (nat_of_digits 0 cs)
                  else map_option int (nat_of_digits 0 s))"

definition decimal_literal :: "string \<Rightarrow> rat option" where
  \<comment> \<open>digits, a point, digits, with an optional sign; one side of the point may be empty\<close>
  "decimal_literal s =
     (let neg = (s \<noteq> [] \<and> hd s = CHR ''-'');
          u = (if neg then tl s else s);
          ip = takeWhile (\<lambda>c. c \<noteq> CHR ''.'') u;
          rest = dropWhile (\<lambda>c. c \<noteq> CHR ''.'') u
      in case rest of
           [] \<Rightarrow> None
         | p # fp \<Rightarrow>
             if ip = [] \<and> fp = [] then None
             else (case (nat_of_digits 0 ip, nat_of_digits 0 fp) of
                     (Some i, Some f) \<Rightarrow>
                       Some ((if neg then - 1 else 1) * (of_nat i + of_nat f / 10 ^ length fp))
                   | _ \<Rightarrow> None))"

definition example_lib :: pylib where
  \<comment> \<open>the library functions on integer and decimal literals and on day numbers: an
      integer literal is read as an \<open>int64\<close>, a decimal literal as the nearest \<open>float64\<close>\<close>
  "example_lib =
     \<lparr>Decimal = (\<lambda>s. case integer_literal s of
                         Some n \<Rightarrow> Some (of_int n)
                       | None \<Rightarrow> decimal_literal s),
      to_datetime = (\<lambda>col s. integer_literal s),
      csv_number = (\<lambda>s. case integer_literal s of
                            Some n \<Rightarrow> Some (of_int n)
                          | None \<Rightarrow> map_option float64 (decimal_literal s))\<rparr>"

definition raw_tenth :: "raw_row table" where
  \<comment> \<open>the frame read from a file with one row, whose pal is written \<open>0.1\<close> and whose
      exposure is written \<open>100\<close>\<close>
  "raw_tenth =
     \<lparr>categories = [''Materials''], has_ticker = True,
      rows = [\<lparr>r_date = ''1'', r_lkid = ''A'', r_ticker = ''X'', r_analyst = ''a'',
               r_sector = 0, r_pal = hd (read_csv_column example_lib [''0.1'']),
               r_exposure = hd (read_csv_column example_lib [''100''])\<rparr>]\<rparr>"

definition typed_tenth :: "row table" where
  \<comment> \<open>\<open>raw_tenth\<close> after steps 1 and 2\<close>
  "typed_tenth =
     \<lparr>categories = [''Materials''], has_ticker = True,
      rows = [\<lparr>label = 0, index = 0, date = 1, lkid = ''A'', ticker = ''X'', analyst = ''a'',
               sector = 0, pal = Some (3602879701896397 / 36028797018963968),
               exposure = Some 100, open_liq = None, return = None\<rparr>]\<rparr>"

definition blotter_flat :: "row list" where
  \<comment> \<open>one position whose exposure equals its pal: its open liquidity is 0\<close>
  "blotter_flat = [position 0 1 ''A'' ''X'' 10 10]"

definition blotter_zero_liq :: "row list" where
  \<comment> \<open>a frame as step 4 may leave it: one day, liquidities 5 and -5\<close>
  "blotter_zero_liq =
     [(position 0 1 ''A'' ''X'' 0 5)\<lparr>open_liq := Some 5\<rparr>,
      (position 1 1 ''B'' ''X'' 7 2)\<lparr>open_liq := Some (- 5)\<rparr>]"

definition six_steps :: "pylib \<Rightarrow> raw_row table \<Rightarrow> error + row table" where
  \<comment> \<open>the six steps composed on values, each step reading the frame it writes\<close>
  "six_steps lib t =
     (case step2_table lib \<lparr>categories = categories t, has_ticker = has_ticker t,
                            rows = step1_rows (rows t)\<rparr> of
        Inl e \<Rightarrow> Inl e
      | Inr t2 \<Rightarrow>
          (let t3 = step3_table t2; df4 = step4_eager (rows t3) in
           case step5_eager df4 of
             Inl e \<Rightarrow> Inl e
           | Inr df5 \<Rightarrow> Inr (t3\<lparr>rows := step6_rows df5\<rparr>)))"

definition raw_collision :: "raw_row table" where
  \<comment> \<open>two rows of the same lkid, ticker and day, then a row of another lkid\<close>
  "raw_collision =
     \<lparr>categories = [''Materials''], has_ticker = True,
      rows = [\<lparr>r_date = ''1'', r_lkid = ''A'', r_ticker = ''X'', r_analyst = ''a'',
               r_sector = 0, r_pal = Number 10, r_exposure = Number 20\<rparr>,
              \<lparr>r_date = ''1'', r_lkid = ''A'', r_ticker = ''X'', r_analyst = ''a'',
               r_sector = 0, r_pal = Number 10, r_exposure = Number 10\<rparr>,
              \<lparr>r_date = ''1'', r_lkid = ''B'', r_ticker = ''X'', r_analyst = ''a'',
               r_sector = 0, r_pal = Number 30, r_exposure = Number 30\<rparr>]\<rparr>"

definition raw_sectors :: "raw_row table" where
  \<comment> \<open>one lkid and day, two tickers, sectors Materials and Technology\<close>
  "raw_sectors =
     \<lparr>categories = [''Materials'', ''Technology''], has_ticker = True,
      rows = [\<lparr>r_date = ''1'', r_lkid = ''A'', r_ticker = ''X'', r_analyst = ''a'',
               r_sector = 0, r_pal = Number 10, r_exposure = Number 15\<rparr>,
              \<lparr>r_date = ''1'', r_lkid = ''A'', r_ticker = ''Y'', r_analyst = ''a'',
               r_sector = 1, r_pal = Number 20, r_exposure = Number 25\<rparr>]\<rparr>"

definition returns_collision :: "row list" where
  \<comment> \<open>the rows of \<open>raw_collision\<close> after steps 1 to 5\<close>
  "returns_collision =
     [\<lparr>label = 0, index = 0, date = 1, lkid = ''A'', ticker = ''X'', analyst = ''a'',
       sector = 0, pal = Some 20, exposure = Some 30, open_liq = Some 10,
       return = Some 2\<rparr>,
      \<lparr>label = 1, index = 1, date = 1, lkid = ''A'', ticker = ''X'', analyst = ''a'',
       sector = 0, pal = Some 10, exposure = Some 10, open_liq = None,
       return = Some 1\<rparr>,
      \<lparr>label = 2, index = 2, date = 1, lkid = ''B'', ticker = ''X'', analyst = ''a'',
       sector = 0, pal = Some 30, exposure = Some 30, open_liq = Some 0,
       return = Some 3\<rparr>]"

definition returns_sectors :: "row list" where
  \<comment> \<open>the rows of \<open>raw_sectors\<close> after steps 1 to 5\<close>
  "returns_sectors =
     [\<lparr>label = 0, index = 0, date = 1, lkid = ''A'', ticker = ''X'', analyst = ''a'',
       sector = 0, pal = Some 10, exposure = Some 15, open_liq = Some 5,
       return = Some 1\<rparr>,
      \<lparr>label = 1, index = 1, date = 1, lkid = ''A'', ticker = ''Y'', analyst = ''a'',
       sector = 1, pal = Some 20, exposure = Some 25, open_liq = Some 5,
       return = Some 2\<rparr>]"

definition renamed_categories :: "string list" where
  "renamed_categories = [''Materials'', ''Information Technology'']"

section \<open>Properties\<close>

subsection \<open>Decimal arithmetic on small integers\<close>

lemma round_half_even_of_int: "round_half_even (of_int m) = m"
  by (simp add: round_half_even_def)

lemma adjusted_of_int:
  assumes "n \<noteq> 0"
  shows "adjusted (of_int n) = int (floorlog 10 (nat \<bar>n\<bar>)) - 1"
proof -
  have pos: "0 < nat \<bar>n\<bar>" using assms by simp
  have q: "quotient_of \<bar>rat_of_int n\<bar> = (\<bar>n\<bar>, 1)"
    using quotient_of_int [of "\<bar>n\<bar>"] by (simp add: Rat.of_int_def)
  have b: "10 ^ (floorlog 10 (nat \<bar>n\<bar>) - 1) \<le> nat \<bar>n\<bar>"
    using floorlog_bounds [of "nat \<bar>n\<bar>" 10] pos by simp
  have f1: "floorlog 10 (nat \<bar>n\<bar>) \<ge> 1"
    using pos by (simp add: floorlog_def)
  have "(10::rat) powi (int (floorlog 10 (nat \<bar>n\<bar>)) - 1) = 10 ^ (floorlog 10 (nat \<bar>n\<bar>) - 1)"
    using f1 by (simp add: power_int_def of_nat_diff)
  also have "\<dots> = of_nat (10 ^ (floorlog 10 (nat \<bar>n\<bar>) - 1))" by simp
  also have "\<dots> \<le> of_nat (nat \<bar>n\<bar>)" using b by (simp only: of_nat_le_iff)
  also have "\<dots> = \<bar>rat_of_int n\<bar>" by simp
  finally have le: "(10::rat) powi (int (floorlog 10 (nat \<bar>n\<bar>)) - 1) \<le> \<bar>rat_of_int n\<bar>" .
  have fl1: "floorlog 10 (Suc 0) = 1" by (simp add: compute_floorlog)
  show ?thesis
    unfolding adjusted_def q using le by (simp add: fl1)
qed

lemma context_round_of_int:
  assumes "\<bar>n\<bar> < 10 ^ 28"
  shows "context_round (of_int n) = of_int n"
proof (cases "n = 0")
  case True
  then show ?thesis by (simp add: context_round_def)
next
  case False
  define a where "a = floorlog 10 (nat \<bar>n\<bar>)"
  have pos: "0 < nat \<bar>n\<bar>" using False by simp
  have "10 ^ (a - 1) \<le> nat \<bar>n\<bar>"
    using floorlog_bounds [of "nat \<bar>n\<bar>" 10] pos by (simp add: a_def)
  also have "nat \<bar>n\<bar> < 10 ^ 28" using assms by (simp add: nat_less_iff)
  finally have "(10::nat) ^ (a - 1) < 10 ^ 28" .
  then have "a - 1 < 28" by (rule power_less_imp_less_exp [rotated]) simp
  then have a28: "a \<le> 28" by simp
  define k where "k = 28 - a"
  have e: "adjusted (rat_of_int n) - (int prec - 1) = - int k"
    using a28 by (simp add: adjusted_of_int [OF False] a_def [symmetric] prec_def k_def)
  have d: "rat_of_int n / 10 powi (- int k) = of_int (n * 10 ^ k)"
    by (simp add: power_int_minus field_simps)
  show ?thesis
    using False unfolding context_round_def Let_def e d round_half_even_of_int
    by (simp add: power_int_minus)
qed

lemma context_round_numeral [simp]:
  "numeral k < (10::int) ^ 28 \<Longrightarrow> context_round (numeral k) = numeral k"
  "numeral k < (10::int) ^ 28 \<Longrightarrow> context_round (- numeral k) = - numeral k"
  "context_round 0 = 0" "context_round 1 = 1"
  using context_round_of_int [of "numeral k"] context_round_of_int [of "- numeral k"]
    context_round_of_int [of 0] context_round_of_int [of 1]
  by simp_all


subsection \<open>Step 4: a row is updated from its own partition only\<close>

lemma update_row4_keeps:
  "label (update_row4 v r) = label r" "index (update_row4 v r) = index r"
  "date (update_row4 v r) = date r" "lkid (update_row4 v r) = lkid r"
  "ticker (update_row4 v r) = ticker r" "return (update_row4 v r) = return r"
  by (simp_all add: update_row4_def split: option.splits)

lemma update_row4_miss:
  assumes "label r \<notin> a_index ` set v"
  shows "update_row4 v r = r"
proof -
  have "\<not> (\<exists>x. x \<in> set v \<and> a_index x = label r)"
    using assms by (metis imageI)
  then have "find (\<lambda>a. a_index a = label r) v = None"
    unfolding find_None_iff .
  then show ?thesis by (simp add: update_row4_def)
qed

lemma foldl_map_rows:
  "foldl (\<lambda>acc (k, part). map (f part) acc) df gs
     = map (\<lambda>r. foldl (\<lambda>r (k, part). f part r) r gs) df"
proof (induction gs arbitrary: df)
  case Nil
  show ?case by simp
next
  case (Cons g gs)
  obtain k part where g: "g = (k, part)" by (cases g)
  show ?case by (simp add: g Cons.IH comp_def)
qed

lemma step4_rows_map:
  "step4_rows df src
     = map (\<lambda>r. foldl (\<lambda>r (k, part). update_row4 (partition_view part) r) r
                       (groupby_lkid_ticker src)) df"
  unfolding step4_rows_def by (rule foldl_map_rows)

lemma fold_update_miss:
  "\<forall>(k, part) \<in> set gs. label r \<notin> a_index ` set (partition_view part) \<Longrightarrow>
   foldl (\<lambda>r (k, part). update_row4 (partition_view part) r) r gs = r"
proof (induction gs)
  case Nil
  show ?case by simp
next
  case (Cons g gs)
  obtain k part where g: "g = (k, part)" by (cases g)
  from Cons.prems have 1: "label r \<notin> a_index ` set (partition_view part)"
    and 2: "\<forall>(k, part) \<in> set gs. label r \<notin> a_index ` set (partition_view part)"
    by (simp_all add: g)
  show ?case by (simp add: g update_row4_miss [OF 1] Cons.IH [OF 2])
qed

lemma fold_update_one:
  assumes "\<forall>(k, part) \<in> set gs1 \<union> set gs2. label r \<notin> a_index ` set (partition_view part)"
  shows "foldl (\<lambda>r (k, part). update_row4 (partition_view part) r) r (gs1 @ (k0, p0) # gs2)
           = update_row4 (partition_view p0) r"
proof -
  have 1: "foldl (\<lambda>r (k, part). update_row4 (partition_view part) r) r gs1 = r"
    using assms by (intro fold_update_miss) auto
  have 2: "foldl (\<lambda>r (k, part). update_row4 (partition_view part) r)
             (update_row4 (partition_view p0) r) gs2 = update_row4 (partition_view p0) r"
    using assms by (intro fold_update_miss) (auto simp: update_row4_keeps)
  show ?thesis by (simp add: 1 2)
qed

lemma impute_nulls_fields:
  "map a_index (impute_nulls v) = map a_index v"
  "map a_date (impute_nulls v) = map a_date v"
  by (induction v) (simp_all add: impute_nulls_def impute_first_day_open_liq_def)

lemma assign_open_liq_fields:
  "map a_index (assign_open_liq v) = map a_index v"
  "map a_date (assign_open_liq v) = map a_date v"
  by (simp_all add: assign_open_liq_def comp_def)

lemma view_fields:
  "map a_index (partition_view part) = map a_index (groupby_date_agg part)"
  "map a_date (partition_view part) = map a_date (groupby_date_agg part)"
  by (simp_all only: partition_view_def impute_nulls_fields assign_open_liq_fields)

lemma min_list_in: "(xs :: 'a::linorder list) \<noteq> [] \<Longrightarrow> min_list xs \<in> set xs"
  using Min_in [of "set xs"] by (simp add: min_list_Min)

lemma agg_date_index_in:
  assumes "d \<in> date ` set part"
  shows "a_index (agg_date part d) \<in> index ` set (filter (\<lambda>r. date r = d) part)"
proof -
  have ne: "map index (filter (\<lambda>r. date r = d) part) \<noteq> []"
    using assms by (auto simp: filter_empty_conv)
  show ?thesis
    using min_list_in [OF ne] by (simp add: agg_date_def first_alphabetical_def Let_def)
qed

lemma agg_date_date [simp]: "a_date (agg_date part d) = d"
  by (simp add: agg_date_def Let_def)

lemma view_index_subset:
  "a_index ` set (partition_view part) \<subseteq> index ` set part"
proof
  fix x assume "x \<in> a_index ` set (partition_view part)"
  then have "x \<in> set (map a_index (partition_view part))" by simp
  then have "x \<in> set (map a_index (groupby_date_agg part))" by (simp only: view_fields)
  then obtain d where d: "d \<in> date ` set part" and x: "x = a_index (agg_date part d)"
    by (auto simp: groupby_date_agg_def)
  from agg_date_index_in [OF d] x show "x \<in> index ` set part" by auto
qed


lemma index_inj:
  assumes "distinct (map index src)" "s \<in> set src" "s' \<in> set src" "index s = index s'"
  shows "s = s'"
proof -
  have "inj_on index (set src)" using assms(1) by (simp add: distinct_map)
  then show ?thesis using assms(4,2,3) by (rule inj_onD)
qed

lemma groupby_lkid_ticker_split:
  assumes "s \<in> set src"
  shows "\<exists>ks1 ks2. groupby_lkid_ticker src
            = map (\<lambda>k. (k, filter (\<lambda>r. (lkid r, ticker r) = k) src)) ks1
              @ ((lkid s, ticker s), partition_of src s)
              # map (\<lambda>k. (k, filter (\<lambda>r. (lkid r, ticker r) = k) src)) ks2
          \<and> (lkid s, ticker s) \<notin> set ks1 \<and> (lkid s, ticker s) \<notin> set ks2"
proof -
  let ?ks = "sort (remdups (map (\<lambda>r. (lkid r, ticker r)) src))"
  have d: "distinct ?ks" by simp
  have "(lkid s, ticker s) \<in> set ?ks" using assms by force
  then obtain ks1 ks2 where sp: "?ks = ks1 @ (lkid s, ticker s) # ks2"
    by (meson split_list)
  with d have "(lkid s, ticker s) \<notin> set ks1 \<and> (lkid s, ticker s) \<notin> set ks2"
    by (metis distinct_append distinct.simps(2) disjoint_iff list.set_intros(1))
  with sp show ?thesis
    unfolding groupby_lkid_ticker_def partition_of_def by (intro exI [of _ ks1] exI [of _ ks2]) simp
qed

lemma step4_representative:
  assumes idx: "distinct (map index src)"
      and s: "s \<in> set src" and lab: "label r = index s"
  shows "foldl (\<lambda>r (k, part). update_row4 (partition_view part) r) r (groupby_lkid_ticker src)
           = update_row4 (partition_view (partition_of src s)) r"
proof -
  obtain ks1 ks2 where
    sp: "groupby_lkid_ticker src
            = map (\<lambda>k. (k, filter (\<lambda>r. (lkid r, ticker r) = k) src)) ks1
              @ ((lkid s, ticker s), partition_of src s)
              # map (\<lambda>k. (k, filter (\<lambda>r. (lkid r, ticker r) = k) src)) ks2"
    and n1: "(lkid s, ticker s) \<notin> set ks1" and n2: "(lkid s, ticker s) \<notin> set ks2"
    using groupby_lkid_ticker_split [OF s] by blast
  have other: "label r \<notin> a_index ` set (partition_view (filter (\<lambda>r. (lkid r, ticker r) = k) src))"
    if "k \<noteq> (lkid s, ticker s)" for k
  proof
    assume "label r \<in> a_index ` set (partition_view (filter (\<lambda>r. (lkid r, ticker r) = k) src))"
    then have "label r \<in> index ` set (filter (\<lambda>r. (lkid r, ticker r) = k) src)"
      using view_index_subset [of "filter (\<lambda>r. (lkid r, ticker r) = k) src"] by (rule rev_subsetD)
    then have "index s \<in> index ` set (filter (\<lambda>r. (lkid r, ticker r) = k) src)"
      by (simp only: lab)
    then obtain s' where s': "s' \<in> set src" "(lkid s', ticker s') = k" "index s = index s'"
      by auto
    with index_inj [OF idx s s'(1)] have "s = s'" by simp
    with s'(2) that show False by simp
  qed
  have "\<forall>(k, part) \<in> set (map (\<lambda>k. (k, filter (\<lambda>r. (lkid r, ticker r) = k) src)) ks1)
               \<union> set (map (\<lambda>k. (k, filter (\<lambda>r. (lkid r, ticker r) = k) src)) ks2).
          label r \<notin> a_index ` set (partition_view part)"
  proof (clarify)
    fix k part x
    assume m: "(k, part) \<in> set (map (\<lambda>k. (k, filter (\<lambda>r. (lkid r, ticker r) = k) src)) ks1)
               \<union> set (map (\<lambda>k. (k, filter (\<lambda>r. (lkid r, ticker r) = k) src)) ks2)"
       and x: "x \<in> set (partition_view part)" and e: "label r = a_index x"
    from m have p: "part = filter (\<lambda>r. (lkid r, ticker r) = k) src" and k: "k \<in> set ks1 \<union> set ks2"
      by auto
    from k n1 n2 have "k \<noteq> (lkid s, ticker s)" by auto
    from other [OF this] x e show False unfolding p by (metis imageI)
  qed
  then show ?thesis
    unfolding sp by (rule fold_update_one)
qed

lemma find_unique:
  assumes "x \<in> set xs" "P x" "\<forall>y\<in>set xs. P y \<longrightarrow> y = x"
  shows "find P xs = Some x"
  using assms
proof (induction xs)
  case Nil
  then show ?case by simp
next
  case (Cons a xs)
  show ?case
  proof (cases "P a")
    case True
    with Cons.prems(3) have "a = x" by simp
    with True show ?thesis by simp
  next
    case False
    with Cons.prems(1,2) have "x \<in> set xs" by auto
    moreover from Cons.prems(3) have "\<forall>y\<in>set xs. P y \<longrightarrow> y = x" by simp
    ultimately have "find P xs = Some x" using Cons.IH Cons.prems(2) by blast
    with False show ?thesis by simp
  qed
qed

lemma map_of_shift:
  "map_of (map (\<lambda>d'. (d' - 1, f d')) ds) (d::int)
     = (if d + 1 \<in> set ds then Some (f (d + 1)) else None)"
  by (induction ds) auto

lemma partition_view_eq:
  "partition_view part = map (view_row part) (sort (remdups (map date part)))"
proof -
  let ?ds = "sort (remdups (map date part))"
  have sh: "shift_exposure (groupby_date_agg part)
              = map (\<lambda>d'. (d' - 1, a_exposure (agg_date part d'))) ?ds"
    by (simp add: shift_exposure_def groupby_date_agg_def comp_def)
  have ex: "a_exposure (agg_date part d) = object_sum (map exposure (filter (\<lambda>r. date r = d) part))" for d
    by (simp add: agg_date_def Let_def)
  have mem: "d + 1 \<in> set ?ds \<longleftrightarrow> filter (\<lambda>r. date r = d + 1) part \<noteq> []" for d
    by (force simp: filter_empty_conv)
  show ?thesis
    unfolding partition_view_def impute_nulls_def assign_open_liq_def sh
    by (simp add: groupby_date_agg_def comp_def map_of_shift view_row_def Let_def
          impute_first_day_open_liq_def ex mem del: set_sort set_remdups)
qed

lemma view_row_index:
  "a_index (view_row part d) = first_alphabetical (map index (filter (\<lambda>r. date r = d) part))"
  by (simp add: view_row_def agg_date_def Let_def)

lemma find_view_row:
  assumes idx: "distinct (map index src)" and s: "s \<in> set src" and rep: "representative src s"
  shows "find (\<lambda>a. a_index a = index s) (partition_view (partition_of src s))
           = Some (view_row (partition_of src s) (date s))"
proof -
  let ?part = "partition_of src s"
  let ?ds = "sort (remdups (map date ?part))"
  have sp: "s \<in> set ?part" using s by (simp add: partition_of_def)
  have sub: "set ?part \<subseteq> set src" by (auto simp: partition_of_def)
  have 1: "view_row ?part (date s) \<in> set (map (view_row ?part) ?ds)"
    using sp by simp
  have 2: "a_index (view_row ?part (date s)) = index s"
    using rep by (simp add: view_row_index representative_def same_day_def)
  have 3: "\<forall>y\<in>set (map (view_row ?part) ?ds). a_index y = index s \<longrightarrow> y = view_row ?part (date s)"
  proof (intro ballI impI)
    fix y assume y: "y \<in> set (map (view_row ?part) ?ds)" and e: "a_index y = index s"
    from y obtain d where d: "d \<in> date ` set ?part" and yd: "y = view_row ?part d" by auto
    have "a_index (agg_date ?part d) \<in> index ` set (filter (\<lambda>r. date r = d) ?part)"
      by (rule agg_date_index_in [OF d])
    moreover have "a_index (agg_date ?part d) = index s"
      using e by (simp add: yd view_row_def Let_def)
    ultimately obtain s' where s': "s' \<in> set ?part" "date s' = d" "index s = index s'"
      by auto
    from s'(1) sub have "s' \<in> set src" by blast
    from index_inj [OF idx s this s'(3)] s'(2) have "d = date s" by simp
    with yd show "y = view_row ?part (date s)" by simp
  qed
  show ?thesis
    unfolding partition_view_eq by (rule find_unique [OF 1 2 3])
qed

lemma step4_rows_nth:
  assumes idx: "distinct (map index src)" and i: "i < length df"
      and s: "s \<in> set src" and lab: "label (df ! i) = index s" and rep: "representative src s"
  shows "step4_rows df src ! i =
           (let a = view_row (partition_of src s) (date s) in
            (df ! i)\<lparr>analyst := a_analyst a, sector := a_sector a,
                     pal := Some (a_pal a), exposure := Some (a_exposure a),
                     open_liq := a_open_liq a\<rparr>)"
proof -
  have o: "\<exists>v. a_open_liq (view_row part d) = Some v" for part d
    by (simp add: view_row_def Let_def)
  have "step4_rows df src ! i
          = foldl (\<lambda>r (k, part). update_row4 (partition_view part) r) (df ! i) (groupby_lkid_ticker src)"
    using i by (simp add: step4_rows_map)
  also have "\<dots> = update_row4 (partition_view (partition_of src s)) (df ! i)"
    by (rule step4_representative [OF idx s lab])
  also have "\<dots> = (let a = view_row (partition_of src s) (date s) in
            (df ! i)\<lparr>analyst := a_analyst a, sector := a_sector a,
                     pal := Some (a_pal a), exposure := Some (a_exposure a),
                     open_liq := a_open_liq a\<rparr>)"
    using o [of "partition_of src s" "date s"]
    by (auto simp add: update_row4_def lab find_view_row [OF idx s rep] Let_def coalesce_def)
  finally show ?thesis .
qed

lemma partition_of_none:
  "partition_of (set_open_liq_none df) (r\<lparr>open_liq := None\<rparr>) = set_open_liq_none (partition_of df r)"
  by (simp add: partition_of_def set_open_liq_none_def filter_map comp_def)

lemma same_day_none:
  "same_day (set_open_liq_none part) d = set_open_liq_none (same_day part d)"
  by (simp add: same_day_def set_open_liq_none_def filter_map comp_def)

lemma map_fields_none:
  "map index (set_open_liq_none p) = map index p"
  "map label (set_open_liq_none p) = map label p"
  "map date (set_open_liq_none p) = map date p"
  "map analyst (set_open_liq_none p) = map analyst p"
  "map sector (set_open_liq_none p) = map sector p"
  "map pal (set_open_liq_none p) = map pal p"
  "map exposure (set_open_liq_none p) = map exposure p"
  by (simp_all add: set_open_liq_none_def comp_def)

lemma filter_date_none:
  "filter (\<lambda>r. date r = d) (set_open_liq_none p) = set_open_liq_none (filter (\<lambda>r. date r = d) p)"
  by (simp add: set_open_liq_none_def filter_map comp_def)

lemma view_row_none:
  "view_row (set_open_liq_none p) d = view_row p d"
  by (simp add: view_row_def agg_date_def Let_def filter_date_none map_fields_none)
     (simp add: set_open_liq_none_def)

lemma representative_none:
  "representative (set_open_liq_none df) (r\<lparr>open_liq := None\<rparr>) = representative df r"
  by (simp add: representative_def partition_of_none same_day_none map_fields_none)

lemma wf_frame_distinct: "wf_frame df \<Longrightarrow> distinct (map index df)"
  by (simp add: wf_frame_def)

lemma wf_frame_label: "wf_frame df \<Longrightarrow> i < length df \<Longrightarrow> label (df ! i) = index (df ! i)"
  by (metis wf_frame_def length_map nth_map)

lemma step4_eager_nth:
  assumes wf: "wf_frame df" and i: "i < length df" and rep: "representative df (df ! i)"
  shows "step4_eager df ! i =
           (let a = view_row (partition_of df (df ! i)) (date (df ! i)) in
            (df ! i)\<lparr>analyst := a_analyst a, sector := a_sector a,
                     pal := Some (a_pal a), exposure := Some (a_exposure a),
                     open_liq := a_open_liq a\<rparr>)"
proof -
  let ?src = "set_open_liq_none df"
  let ?s = "(df ! i)\<lparr>open_liq := None\<rparr>"
  have n: "?src ! i = ?s" using i by (simp add: set_open_liq_none_def)
  have idx: "distinct (map index ?src)"
    using wf_frame_distinct [OF wf] by (simp add: map_fields_none)
  have i': "i < length ?src" using i by (simp add: set_open_liq_none_def)
  have s: "?s \<in> set ?src" using i' n by (metis nth_mem)
  have lab: "label (?src ! i) = index ?s"
    using wf_frame_label [OF wf i] by (simp add: n)
  have rep': "representative ?src ?s" using rep by (simp add: representative_none)
  show ?thesis
    unfolding step4_eager_def step4_rows_nth [OF idx i' s lab rep'] n
    by (simp add: partition_of_none view_row_none Let_def)
qed

subsection \<open>The decorator in eager mode\<close>

lemma run_append:
  "run (xs @ ys) st = (case run xs st of Inl e \<Rightarrow> Inl e | Inr st' \<Rightarrow> run ys st')"
proof (induction xs arbitrary: st)
  case Nil
  show ?case by simp
next
  case (Cons x xs)
  show ?case
    by (cases "transform st x") (auto simp: Cons.IH)
qed

lemma run_eager_executor:
  "run steps (h, ex) = Inr (h1, ex1) \<Longrightarrow> ex_is_eager ex \<Longrightarrow> ex1 = ex"
proof (induction steps arbitrary: h)
  case Nil
  then show ?case by simp
next
  case (Cons x xs)
  then show ?case
    by (cases "transform (h, ex) x") auto
qed

text \<open>
  Claim C4.  In eager (in-place) mode, when the steps before have completed and the
  function under \<open>df_task\<close> returns a frame that is not the object it was given, the
  run ends with \<open>RuntimeError\<close> at that step, whatever steps follow; a function that
  returns the object it was given passes the check of \<open>df_task\<close>.
\<close>

theorem df_task_eager_contract:
  "(ex_is_eager ex \<and> run pre (h, ex) = Inr (h1, ex1)
      \<and> func h1 (ex_df ex1) ex1 = Inr (h2, r) \<and> r \<noteq> ex_df ex1
     \<longrightarrow> run (pre @ df_task func # post) (h, ex) = Inl RuntimeError)
   \<and> (func' h' df ex' = Inr (h3, df) \<longrightarrow> df_task func' h' df ex' True = Inr (h3, df))"
proof (intro conjI impI)
  assume a: "ex_is_eager ex \<and> run pre (h, ex) = Inr (h1, ex1)
      \<and> func h1 (ex_df ex1) ex1 = Inr (h2, r) \<and> r \<noteq> ex_df ex1"
  then have e: "ex1 = ex" using run_eager_executor by blast
  have "transform (h1, ex1) (df_task func) = Inl RuntimeError"
    using a by (simp add: transform_def df_task_def e)
  then show "run (pre @ df_task func # post) (h, ex) = Inl RuntimeError"
    using a by (simp add: run_append)
next
  assume "func' h' df ex' = Inr (h3, df)"
  then show "df_task func' h' df ex' True = Inr (h3, df)"
    by (simp add: df_task_def)
qed

theorem df_task_eager_contract_witness:
  "run ([] @ df_task rebinding_task # [df_task step1_create_pk]) ([Raw raw_example], eager_executor)
     = Inl RuntimeError
   \<and> df_task step1_create_pk [Raw raw_example] 0 eager_executor True
     = Inr ([Indexed \<lparr>categories = categories raw_example, has_ticker = has_ticker raw_example,
                       rows = step1_rows (rows raw_example)\<rparr>], 0)"
  using df_task_eager_contract [where ex = eager_executor and pre = "[]" and h = "[Raw raw_example]"
          and ?h1.0 = "[Raw raw_example]" and ?ex1.0 = eager_executor and func = rebinding_task
          and ?h2.0 = "[Raw raw_example, Raw raw_example]" and r = 1
          and post = "[df_task step1_create_pk]" and func' = step1_create_pk
          and h' = "[Raw raw_example]" and df = 0 and ex' = eager_executor
          and ?h3.0 = "[Indexed \<lparr>categories = categories raw_example,
                        has_ticker = has_ticker raw_example,
                        rows = step1_rows (rows raw_example)\<rparr>]"]
  by (simp add: eager_executor_def rebinding_task_def copy_def step1_create_pk_def)

subsection \<open>Step 4: open liquidity of a collapsed row\<close>

lemmas step4_eval = step4_eager_def step4_rows_def set_open_liq_none_def groupby_lkid_ticker_def
  partition_view_def impute_nulls_def assign_open_liq_def shift_exposure_def groupby_date_agg_def
  agg_date_def impute_first_day_open_liq_def update_row4_def coalesce_def object_sum_def
  first_alphabetical_def position_def dec_sub_def dec_add_def Let_def

lemmas spec4_eval = wf_frame_def representative_def partition_of_def same_day_def
  first_alphabetical_def object_sum_def position_def dec_sub_def dec_add_def Let_def

lemma open_liq_representative:
  assumes "wf_frame df" "i < length df" "representative df (df ! i)"
  shows "open_liq (step4_eager df ! i) =
     (if same_day (partition_of df (df ! i)) (date (df ! i) + 1) \<noteq> []
      then Some (object_sum (map exposure (same_day (partition_of df (df ! i)) (date (df ! i) + 1))))
      else Some (dec_sub (object_sum (map exposure (same_day (partition_of df (df ! i)) (date (df ! i)))))
                         (object_sum (map pal (same_day (partition_of df (df ! i)) (date (df ! i)))))))"
  unfolding step4_eager_nth [OF assms]
  by (simp add: view_row_def agg_date_def same_day_def Let_def)

text \<open>
  Claim C1 (amended).  In step 4, for the representative row of date \<open>d\<close> of a
  (lkid, ticker) partition: when \<open>d\<close> is the last date of the partition, \<open>open_liq\<close> is
  exposure minus pal of the collapsed row; when the next date present in the partition is
  \<open>d + 1\<close>, \<open>open_liq\<close> is the exposure of the collapsed row of that date; when the next
  date present is more than one calendar day later, \<open>open_liq\<close> is again exposure minus
  pal of the collapsed row of \<open>d\<close>.
\<close>

theorem step4_open_liq_next_present_date:
  assumes "wf_frame df" "i < length df" "representative df (df ! i)"
  shows "let r = df ! i; part = partition_of df r; today = same_day part (date r);
             later = filter (\<lambda>s. date r < date s) part;
             own = Some (dec_sub (object_sum (map exposure today)) (object_sum (map pal today)))
         in (later = [] \<longrightarrow> open_liq (step4_eager df ! i) = own)
          \<and> (later \<noteq> [] \<and> min_list (map date later) = date r + 1 \<longrightarrow>
               open_liq (step4_eager df ! i)
                 = Some (object_sum (map exposure (same_day part (min_list (map date later))))))
          \<and> (later \<noteq> [] \<and> date r + 1 < min_list (map date later) \<longrightarrow>
               open_liq (step4_eager df ! i) = own)"
proof -
  let ?r = "df ! i"
  let ?part = "partition_of df ?r"
  let ?later = "filter (\<lambda>s. date ?r < date s) ?part"
  let ?nxt = "same_day ?part (date ?r + 1)"
  have fin: "finite (date ` set ?later)" by simp
  have m: "min_list (map date ?later) = Min (date ` set ?later)" if "?later \<noteq> []"
    using that min_list_Min [of "map date ?later"] by simp
  have a: "?later = [] \<Longrightarrow> ?nxt = []"
    by (auto simp: same_day_def filter_empty_conv)
  have b: "?nxt \<noteq> []" if "?later \<noteq> []" "min_list (map date ?later) = date ?r + 1"
  proof -
    from that(1) have "date ` set ?later \<noteq> {}" by (auto simp: filter_empty_conv)
    from Min_in [OF fin this] that(2) m [OF that(1)]
    have "date ?r + 1 \<in> date ` set ?later" by simp
    then show ?thesis by (auto simp: same_day_def filter_empty_conv)
  qed
  have c: "?nxt = []" if "?later \<noteq> []" "date ?r + 1 < min_list (map date ?later)"
  proof (rule ccontr)
    assume "?nxt \<noteq> []"
    then obtain s where s: "s \<in> set ?part" "date s = date ?r + 1"
      by (auto simp: same_day_def filter_empty_conv)
    then have "s \<in> set ?later" by simp
    then have "date s \<in> date ` set ?later" by (rule imageI)
    from Min_le [OF fin this] that(2) s(2) m [OF that(1)] show False by simp
  qed
  show ?thesis
    unfolding Let_def open_liq_representative [OF assms]
    using a b c by auto
qed

theorem step4_open_liq_next_present_date_witness:
  "open_liq (step4_eager blotter_two_days ! 0) = Some 80
   \<and> open_liq (step4_eager blotter_two_days ! 1) = Some 85
   \<and> open_liq (step4_eager blotter_gap ! 0) = Some 90"
  using step4_open_liq_next_present_date [of blotter_two_days 0]
    step4_open_liq_next_present_date [of blotter_two_days 1]
    step4_open_liq_next_present_date [of blotter_gap 0]
  by (simp add: blotter_two_days_def blotter_gap_def spec4_eval)

theorem step4_next_present_date_counterexample:
  "partition_of blotter_gap (blotter_gap ! 0) = blotter_gap
   \<and> map date blotter_gap = [1, 3]
   \<and> map exposure (step4_eager blotter_gap) = [Some 100, Some 80]
   \<and> open_liq (step4_eager blotter_gap ! 0) = Some 90"
  by (simp add: blotter_gap_def step4_eval partition_of_def)

text \<open>
  Claim C2.  In step 4, for the representative row of date \<open>d\<close> of a (lkid, ticker)
  partition (the row the same-date rows collapse to): if the partition has rows dated
  \<open>d + 1\<close>, \<open>open_liq\<close> is the exposure of the collapsed row of \<open>d + 1\<close> (their summed
  exposure); otherwise it is exposure minus pal of the collapsed row of \<open>d\<close>.
\<close>

theorem step4_open_liq_next_calendar_day:
  assumes "wf_frame df" "i < length df" "representative df (df ! i)"
  shows "let r = df ! i; part = partition_of df r;
             today = same_day part (date r); nxt = same_day part (date r + 1)
         in open_liq (step4_eager df ! i) =
              (if nxt \<noteq> [] then Some (object_sum (map exposure nxt))
               else Some (dec_sub (object_sum (map exposure today)) (object_sum (map pal today))))"
proof -
  let ?part = "partition_of df (df ! i)"
  let ?a = "view_row ?part (date (df ! i))"
  have "step4_eager df ! i =
          (df ! i)\<lparr>analyst := a_analyst ?a, sector := a_sector ?a, pal := Some (a_pal ?a),
                    exposure := Some (a_exposure ?a), open_liq := a_open_liq ?a\<rparr>"
    using step4_eager_nth [OF assms] by (simp add: Let_def)
  then have "open_liq (step4_eager df ! i) = a_open_liq ?a"
    by simp
  also have "\<dots> =
      (if same_day ?part (date (df ! i) + 1) \<noteq> []
       then Some (object_sum (map exposure (same_day ?part (date (df ! i) + 1))))
       else Some (dec_sub (object_sum (map exposure (same_day ?part (date (df ! i)))))
                          (object_sum (map pal (same_day ?part (date (df ! i)))))))"
    by (simp add: view_row_def agg_date_def same_day_def Let_def)
  finally show ?thesis
    unfolding Let_def .
qed

theorem step4_open_liq_next_calendar_day_witness:
  "open_liq (step4_eager blotter_two_days ! 0) = Some 80
   \<and> open_liq (step4_eager blotter_gap ! 0) = Some 90"
  using step4_open_liq_next_calendar_day [of blotter_two_days 0]
    step4_open_liq_next_calendar_day [of blotter_gap 0]
  by (simp add: blotter_two_days_def blotter_gap_def spec4_eval)

subsection \<open>Steps 1 to 5 keep the row_index\<close>

lemma apply_all_map:
  "apply_all f e xs = Inr ys \<Longrightarrow> map Some ys = map f xs"
proof (induction xs arbitrary: ys)
  case Nil
  then show ?case by simp
next
  case (Cons x xs)
  then show ?case
    by (auto split: option.splits sum.splits)
qed

lemma apply_all_length:
  "apply_all f e xs = Inr ys \<Longrightarrow> length ys = length xs"
  using apply_all_map [of f e xs ys] by (metis length_map)

lemma typed_rows_length:
  "length ps = length krs \<Longrightarrow> length es = length krs \<Longrightarrow> length ds = length krs \<Longrightarrow>
   length (typed_rows i krs ps es ds) = length krs"
proof (induction krs arbitrary: i ps es ds)
  case Nil
  then show ?case by simp
next
  case (Cons kr krs)
  then show ?case
    by (cases ps; cases es; cases ds) simp_all
qed

lemma typed_rows_nth:
  "length ps = length krs \<Longrightarrow> length es = length krs \<Longrightarrow> length ds = length krs \<Longrightarrow>
   j < length krs \<Longrightarrow>
   typed_rows i krs ps es ds ! j = typed_row (i + j) (krs ! j) (ps ! j) (es ! j) (ds ! j)"
proof (induction krs arbitrary: i j ps es ds)
  case Nil
  then show ?case by simp
next
  case (Cons kr krs)
  then show ?case
    by (cases ps; cases es; cases ds; cases j) simp_all
qed

lemma step2_table_rows:
  assumes "step2_table lib t = Inr t2"
  shows "length (rows t2) = length (rows t)"
    and "\<And>j. j < length (rows t) \<Longrightarrow>
           \<exists>p e d. decimal_of_cell lib (r_pal (snd (rows t ! j))) = Some p
                 \<and> decimal_of_cell lib (r_exposure (snd (rows t ! j))) = Some e
                 \<and> to_datetime lib (map (r_date \<circ> snd) (rows t)) (r_date (snd (rows t ! j))) = Some d
                 \<and> rows t2 ! j = typed_row j (rows t ! j) p e d"
    and "categories t2 = map rename_categories (categories t)"
    and "has_ticker t2 = has_ticker t"
    and "distinct (map rename_categories (categories t))"
proof -
  let ?cats = "map rename_categories (categories t)"
  from assms have dc: "distinct ?cats"
    by (simp add: step2_table_def Let_def split: if_splits)
  from assms dc obtain ps es ds where
    ps: "apply_all (decimal_of_cell lib) InvalidOperation (map (r_pal \<circ> snd) (rows t)) = Inr ps" and
    es: "apply_all (decimal_of_cell lib) InvalidOperation (map (r_exposure \<circ> snd) (rows t)) = Inr es" and
    ds: "apply_all (to_datetime lib (map (r_date \<circ> snd) (rows t))) ValueError
                      (map (r_date \<circ> snd) (rows t)) = Inr ds" and
    t2: "t2 = \<lparr>categories = ?cats, has_ticker = has_ticker t,
               rows = typed_rows 0 (rows t) ps es ds\<rparr>"
    by (auto simp: step2_table_def Let_def split: sum.splits)
  have lp: "length ps = length (rows t)" using apply_all_length [OF ps] by simp
  have le: "length es = length (rows t)" using apply_all_length [OF es] by simp
  have ld: "length ds = length (rows t)" using apply_all_length [OF ds] by simp
  show "length (rows t2) = length (rows t)"
    by (simp add: t2 typed_rows_length [OF lp le ld])
  show "categories t2 = ?cats" by (simp add: t2)
  show "has_ticker t2 = has_ticker t" by (simp add: t2)
  show "distinct ?cats" by (rule dc)
  fix j assume j: "j < length (rows t)"
  have "map Some ps ! j = map (decimal_of_cell lib) (map (r_pal \<circ> snd) (rows t)) ! j"
    using apply_all_map [OF ps] by simp
  then have 1: "decimal_of_cell lib (r_pal (snd (rows t ! j))) = Some (ps ! j)"
    using j lp by simp
  have "map Some es ! j = map (decimal_of_cell lib) (map (r_exposure \<circ> snd) (rows t)) ! j"
    using apply_all_map [OF es] by simp
  then have 2: "decimal_of_cell lib (r_exposure (snd (rows t ! j))) = Some (es ! j)"
    using j le by simp
  have "map Some ds ! j = map (to_datetime lib (map (r_date \<circ> snd) (rows t)))
                              (map (r_date \<circ> snd) (rows t)) ! j"
    using apply_all_map [OF ds] by simp
  then have 3: "to_datetime lib (map (r_date \<circ> snd) (rows t)) (r_date (snd (rows t ! j))) = Some (ds ! j)"
    using j ld by simp
  have 4: "rows t2 ! j = typed_row j (rows t ! j) (ps ! j) (es ! j) (ds ! j)"
    using typed_rows_nth [OF lp le ld j, of 0] by (simp add: t2)
  from 1 2 3 4
  show "\<exists>p e d. decimal_of_cell lib (r_pal (snd (rows t ! j))) = Some p
                 \<and> decimal_of_cell lib (r_exposure (snd (rows t ! j))) = Some e
                 \<and> to_datetime lib (map (r_date \<circ> snd) (rows t)) (r_date (snd (rows t ! j))) = Some d
                 \<and> rows t2 ! j = typed_row j (rows t ! j) p e d"
    by blast
qed

lemma step1_rows_index: "map fst (step1_rows rs) = [0 ..< length rs]"
  by (simp add: step1_rows_def)

lemma step2_table_index:
  assumes "step2_table lib t = Inr t2"
  shows "map index (rows t2) = map fst (rows t)"
proof (rule nth_equalityI)
  show "length (map index (rows t2)) = length (map fst (rows t))"
    using step2_table_rows(1) [OF assms] by simp
next
  fix j assume "j < length (map index (rows t2))"
  then have j: "j < length (rows t)" using step2_table_rows(1) [OF assms] by simp
  from step2_table_rows(2) [OF assms j] obtain p e d
    where "rows t2 ! j = typed_row j (rows t ! j) p e d" by blast
  then show "map index (rows t2) ! j = map fst (rows t) ! j"
    using j step2_table_rows(1) [OF assms] by (simp add: typed_row_def)
qed

lemma step2_table_label:
  assumes "step2_table lib t = Inr t2"
  shows "map label (rows t2) = [0 ..< length (rows t)]"
proof (rule nth_equalityI)
  show "length (map label (rows t2)) = length [0 ..< length (rows t)]"
    using step2_table_rows(1) [OF assms] by simp
next
  fix j assume "j < length (map label (rows t2))"
  then have j: "j < length (rows t)" using step2_table_rows(1) [OF assms] by simp
  from step2_table_rows(2) [OF assms j] obtain p e d
    where "rows t2 ! j = typed_row j (rows t ! j) p e d" by blast
  then show "map label (rows t2) ! j = [0 ..< length (rows t)] ! j"
    using j step2_table_rows(1) [OF assms] by (simp add: typed_row_def)
qed

lemma step3_table_index:
  "map index (rows (step3_table t)) = map index (rows t)"
  "map label (rows (step3_table t)) = map label (rows t)"
  by (simp_all add: step3_table_def comp_def)

lemma fold_update_row4_keeps:
  "index (foldl (\<lambda>r (k, part). update_row4 (partition_view part) r) r gs) = index r"
  "label (foldl (\<lambda>r (k, part). update_row4 (partition_view part) r) r gs) = label r"
  "return (foldl (\<lambda>r (k, part). update_row4 (partition_view part) r) r gs) = return r"
  by (induction gs arbitrary: r) (simp_all add: update_row4_keeps split_beta)

lemma step4_rows_index:
  "map index (step4_rows df src) = map index df"
  "map label (step4_rows df src) = map label df"
  "map return (step4_rows df src) = map return df"
  by (simp_all add: step4_rows_map fold_update_row4_keeps comp_def)

lemma step4_eager_index:
  "map index (step4_eager df) = map index df"
  "map label (step4_eager df) = map label df"
  "map return (step4_eager df) = map return df"
  by (simp_all add: step4_eager_def step4_rows_index set_open_liq_none_def comp_def)

lemma update_row5_keeps:
  "index (update_row5 g r) = index r" "label (update_row5 g r) = label r"
  by (simp_all add: update_row5_def split: option.splits)

lemma step5_loop_index:
  "step5_loop gs df = Inr df' \<Longrightarrow> map index df' = map index df \<and> map label df' = map label df"
proof (induction gs arbitrary: df)
  case Nil
  then show ?case by simp
next
  case (Cons g gs)
  obtain d date_df where g: "g = (d, date_df)" by (cases g)
  from Cons.prems obtain date_df' where
    "step5_loop gs (map (update_row5 date_df') df) = Inr df'"
    by (auto simp: g Let_def split: sum.splits)
  from Cons.IH [OF this] show ?case
    by (simp add: update_row5_keeps comp_def)
qed

lemma step5_eager_index:
  "step5_eager df = Inr df' \<Longrightarrow> map index df' = map index df"
  unfolding step5_eager_def step5_rows_def
  by (drule step5_loop_index) (simp add: set_index_return_none_def comp_def)

lemma step6_rows_length: "length (step6_rows df) \<le> length df"
proof -
  have "length (step6_rows df)
          = length (filter notnull (map (update_row6 (groupby_date_lkid_agg (reset_index df)))
                      (set_index_index (set_values_none (reset_index df)))))"
    by (simp add: step6_rows_def relabel_def Let_def)
  also have "\<dots> \<le> length (map (update_row6 (groupby_date_lkid_agg (reset_index df)))
                      (set_index_index (set_values_none (reset_index df))))"
    by (rule length_filter_le)
  also have "\<dots> = length df"
    by (simp add: set_index_index_def set_values_none_def reset_index_def)
  finally show ?thesis .
qed

text \<open>
  Claim C7.  The row_index column made by step 1 is the list of positions
  \<open>0, 1, \<dots>, n - 1\<close> of the input rows, hence pairwise distinct, and steps 2, 3, 4 and 5
  leave this column (and so the number of rows) as it is; step 4 writes its partition
  results into the rows of the frame without adding or removing a row; step 6 is the
  only step that can return fewer rows.
\<close>

theorem row_index_stable:
  assumes "step2_table lib \<lparr>categories = c, has_ticker = ht, rows = step1_rows rs\<rparr> = Inr t2"
      and "step5_eager (step4_eager (rows (step3_table t2))) = Inr df5"
  shows "map fst (step1_rows rs) = [0 ..< length rs]
       \<and> distinct (map fst (step1_rows rs))
       \<and> map index (rows t2) = [0 ..< length rs]
       \<and> map index (rows (step3_table t2)) = [0 ..< length rs]
       \<and> map index (step4_eager (rows (step3_table t2))) = [0 ..< length rs]
       \<and> (\<forall>df src. map index (step4_rows df src) = map index df)
       \<and> map index df5 = [0 ..< length rs]
       \<and> length (step6_rows df5) \<le> length rs"
proof -
  have 1: "map fst (step1_rows rs) = [0 ..< length rs]" by (rule step1_rows_index)
  have 2: "map index (rows t2) = [0 ..< length rs]"
    using step2_table_index [OF assms(1)] by (simp add: 1)
  have 3: "map index (rows (step3_table t2)) = [0 ..< length rs]"
    by (simp add: step3_table_index 2)
  have 4: "map index (step4_eager (rows (step3_table t2))) = [0 ..< length rs]"
    by (simp add: step4_eager_index 3)
  have 5: "map index df5 = [0 ..< length rs]"
    using step5_eager_index [OF assms(2)] by (simp add: 4)
  have "length df5 = length rs" using 5 by (metis length_map length_upt minus_nat.diff_0)
  then have 6: "length (step6_rows df5) \<le> length rs"
    using step6_rows_length [of df5] by simp
  have d: "distinct (map fst (step1_rows rs))" by (simp add: 1)
  show ?thesis using 1 2 3 4 5 6 d by (simp add: step4_rows_index)
qed

lemmas step2_eval = step2_table_def example_lib_def step1_rows_def rename_categories_def
  integer_literal_def decimal_of_cell_def typed_row_def upt_rec Let_def

lemmas step5_eval = step5_eager_def step5_rows_def set_index_return_none_def groupby_date_def
  truediv_row_def update_row5_def series_sum_def dec_div_def dec_add_def coalesce_def Let_def

lemma step2_example:
  "step2_table example_lib \<lparr>categories = categories raw_example, has_ticker = has_ticker raw_example,
      rows = step1_rows (rows raw_example)\<rparr> = Inr typed_example"
  by (simp add: raw_example_def typed_example_def step2_eval)

lemma step4_example:
  "step4_eager (rows (step3_table typed_example)) =
     [\<lparr>label = 0, index = 0, date = 1, lkid = ''A'', ticker = ''X'', analyst = ''a'',
       sector = 1, pal = Some 160, exposure = Some 100, open_liq = Some 80,
       return = None\<rparr>,
      \<lparr>label = 1, index = 1, date = 2, lkid = ''A'', ticker = ''X'', analyst = ''a'',
       sector = 0, pal = Some 40, exposure = Some 80, open_liq = Some 40,
       return = None\<rparr>]"
  by (simp add: typed_example_def step3_table_def step4_eval)

lemma step5_example:
  "step5_eager (step4_eager (rows (step3_table typed_example))) = Inr returns_example"
  unfolding step4_example by (simp add: returns_example_def step5_eval)

theorem row_index_stable_witness:
  "map fst (step1_rows (rows raw_example)) = [0, 1]
   \<and> map index (rows typed_example) = [0, 1]
   \<and> map index (step4_eager (rows (step3_table typed_example))) = [0, 1]
   \<and> map index returns_example = [0, 1]
   \<and> length (step6_rows returns_example) \<le> 2"
  using row_index_stable [of example_lib "categories raw_example" "has_ticker raw_example"
          "rows raw_example" typed_example returns_example]
    step2_example step5_example
  by (simp add: raw_example_def upt_rec)

subsection \<open>Step 3: synthetic tickers\<close>

declare str_nat.simps [simp del]

lemma str_nat_small: "n < 10 \<Longrightarrow> str_nat n = [char_of (48 + n)]"
  by (subst str_nat.simps) simp

lemma str_nat_large:
  "\<not> n < 10 \<Longrightarrow> str_nat n = str_nat (n div 10) @ [char_of (48 + n mod 10)]"
  by (subst str_nat.simps) simp

lemma str_nat_nonempty: "str_nat n \<noteq> []"
  by (cases "n < 10") (simp_all add: str_nat_small str_nat_large)

lemma digit_char_inj:
  assumes "a < 10" "b < 10" "char_of (48 + a) = char_of (48 + (b::nat))"
  shows "a = b"
proof -
  from assms(3) have "(48 + a) mod 256 = (48 + b) mod 256" by simp
  with assms(1,2) show ?thesis by simp
qed

lemma str_nat_inj: "str_nat m = str_nat n \<Longrightarrow> m = n"
proof (induction m arbitrary: n rule: str_nat.induct)
  case (1 m)
  show ?case
  proof (cases "m < 10")
    case True
    show ?thesis
    proof (cases "n < 10")
      case n: True
      from "1.prems" have "char_of (48 + m) = char_of (48 + n)"
        by (simp only: str_nat_small [OF True] str_nat_small [OF n] list.inject)
      from digit_char_inj [OF True n this] show ?thesis .
    next
      case n: False
      from "1.prems" str_nat_nonempty [of "n div 10"] show ?thesis
        by (simp add: str_nat_small True str_nat_large n)
    qed
  next
    case False
    show ?thesis
    proof (cases "n < 10")
      case n: True
      from "1.prems" str_nat_nonempty [of "m div 10"] show ?thesis
        by (simp add: str_nat_small n str_nat_large False)
    next
      case n: False
      from "1.prems" have e: "str_nat (m div 10) = str_nat (n div 10)"
        and c: "char_of (48 + m mod 10) = char_of (48 + n mod 10)"
        by (simp_all add: str_nat_large False n)
      from "1.IH" [OF False e] have d: "m div 10 = n div 10" .
      have "m mod 10 = n mod 10"
        by (rule digit_char_inj [OF _ _ c]) simp_all
      with d have "m div 10 * 10 + m mod 10 = n div 10 * 10 + n mod 10" by simp
      then show ?thesis by (simp only: div_mult_mod_eq)
    qed
  qed
qed

lemma impute_ticker_symbol_inj:
  "impute_ticker_symbol r = impute_ticker_symbol s \<Longrightarrow> index r = index s"
  by (simp add: impute_ticker_symbol_def str_nat_inj)

lemma digit_chars:
  "char_of (48::nat) = CHR ''0''" "char_of (49::nat) = CHR ''1''" "char_of (50::nat) = CHR ''2''"
  by (simp_all add: char_of_eq_iff)

text \<open>
  Claim C8.  For an input without a ticker column, after steps 1 and 2 step 3 gives
  the row at position \<open>i\<close> (its row_index) the ticker \<open>"ticker_"\<close> followed by the
  decimal numeral of \<open>i\<close>, and these tickers are pairwise distinct.
\<close>

theorem step3_synthetic_tickers:
  assumes "\<not> ht"
      and "step2_table lib \<lparr>categories = c, has_ticker = ht, rows = step1_rows rs\<rparr> = Inr t2"
  shows "map ticker (rows (step3_table t2)) = map (\<lambda>i. ''ticker_'' @ str_nat i) [0 ..< length rs]
       \<and> map ticker (rows (step3_table t2)) = map impute_ticker_symbol (rows t2)
       \<and> distinct (map ticker (rows (step3_table t2)))"
proof -
  have ht: "\<not> has_ticker t2" using step2_table_rows(4) [OF assms(2)] assms(1) by simp
  have ix: "map index (rows t2) = [0 ..< length rs]"
    using step2_table_index [OF assms(2)] by (simp add: step1_rows_index)
  have 1: "map ticker (rows (step3_table t2)) = map impute_ticker_symbol (rows t2)"
    using ht by (simp add: step3_table_def comp_def)
  have "map impute_ticker_symbol (rows t2) = map (\<lambda>i. ''ticker_'' @ str_nat i) (map index (rows t2))"
    by (simp add: impute_ticker_symbol_def comp_def)
  then have 2: "map ticker (rows (step3_table t2)) = map (\<lambda>i. ''ticker_'' @ str_nat i) [0 ..< length rs]"
    by (simp add: 1 ix)
  have "inj (\<lambda>i. ''ticker_'' @ str_nat i)"
    by (rule injI) (simp add: str_nat_inj)
  then have "distinct (map (\<lambda>i. ''ticker_'' @ str_nat i) [0 ..< length rs])"
    by (simp add: distinct_map inj_on_def)
  with 1 2 show ?thesis by simp
qed

theorem step3_synthetic_tickers_witness:
  "map ticker (rows (step3_table (typed_example\<lparr>has_ticker := False\<rparr>))) = [''ticker_0'', ''ticker_1'']"
proof -
  have "step2_table example_lib \<lparr>categories = categories raw_example, has_ticker = False,
      rows = step1_rows (rows raw_example)\<rparr> = Inr (typed_example\<lparr>has_ticker := False\<rparr>)"
    by (simp add: raw_example_def typed_example_def step2_eval)
  from step3_synthetic_tickers [OF _ this] show ?thesis
    by (simp add: raw_example_def upt_rec str_nat_small digit_chars)
qed

subsection \<open>Step 2: sector rename and decimals; what \<open>read_csv\<close> stores\<close>

text \<open>
  What step 2 does with the frame it gets.  When it completes, a row whose sector was
  \<open>"Technology"\<close> has sector \<open>"Information Technology"\<close>, a row with another sector
  keeps it, and \<open>pal\<close> and \<open>exposure\<close> of every row hold the value \<open>decimal.Decimal\<close>
  gives for the cell the frame holds, with no rounding by the context.
\<close>

lemma step2_sector_and_cells:
  assumes "step2_table lib t = Inr t2"
      and "j < length (rows t)"
      and "r_sector (snd (rows t ! j)) < length (categories t)"
  shows "let old = sector_name t (r_sector (snd (rows t ! j)));
             new = sector_name t2 (sector (rows t2 ! j))
         in (old = ''Technology'' \<longrightarrow> new = ''Information Technology'')
          \<and> (old \<noteq> ''Technology'' \<longrightarrow> new = old)
          \<and> pal (rows t2 ! j) = decimal_of_cell lib (r_pal (snd (rows t ! j)))
          \<and> exposure (rows t2 ! j) = decimal_of_cell lib (r_exposure (snd (rows t ! j)))
          \<and> pal (rows t2 ! j) \<noteq> None \<and> exposure (rows t2 ! j) \<noteq> None"
proof -
  from step2_table_rows(2) [OF assms(1,2)] obtain p e d where
    p: "decimal_of_cell lib (r_pal (snd (rows t ! j))) = Some p" and
    e: "decimal_of_cell lib (r_exposure (snd (rows t ! j))) = Some e" and
    r: "rows t2 ! j = typed_row j (rows t ! j) p e d"
    by blast
  have c: "categories t2 = map rename_categories (categories t)"
    by (rule step2_table_rows(3) [OF assms(1)])
  have n: "sector_name t2 (sector (rows t2 ! j))
             = rename_categories (sector_name t (r_sector (snd (rows t ! j))))"
    using assms(3) by (simp add: sector_name_def c r typed_row_def)
  show ?thesis
    unfolding Let_def n by (simp add: rename_categories_def r typed_row_def p e)
qed

lemma step2_sector_and_cells_example:
  "sector_name raw_example (r_sector (snd (step1_rows (rows raw_example) ! 0))) = ''Technology''
   \<and> sector_name typed_example (sector (rows typed_example ! 0)) = ''Information Technology''
   \<and> sector_name typed_example (sector (rows typed_example ! 1)) = ''Materials''
   \<and> pal (rows typed_example ! 0) = Some 160 \<and> exposure (rows typed_example ! 0) = Some 100"
  using step2_sector_and_cells [OF step2_example, of 0]
    step2_sector_and_cells [OF step2_example, of 1]
  by (simp add: raw_example_def typed_example_def sector_name_def step1_rows_def upt_rec)

text \<open>The binary64 number nearest to one tenth.\<close>

lemma quotient_of_tenth: "quotient_of (1 / 10) = (1, 10)"
  by (simp add: Fract_of_int_quotient [symmetric] quotient_of_Fract normalize_def Let_def
        flip: rat_number_collapse)

lemma exponent2_tenth: "exponent2 (1 / 10) = - 4"
  by (simp add: exponent2_def quotient_of_tenth compute_floorlog power_int_minus)

lemma round_tenth: "round_half_even (72057594037927936 / 10) = 7205759403792794"
proof -
  have f: "\<lfloor>72057594037927936 / 10 :: rat\<rfloor> = 7205759403792793"
    by (rule floor_unique) simp_all
  show ?thesis
    unfolding round_half_even_def Let_def f by simp
qed

lemma float64_tenth: "float64 (1 / 10) = 3602879701896397 / 36028797018963968"
proof -
  have q: "(2::rat) powi (exponent2 (1 / 10) - 52) = 1 / 72057594037927936"
    by (simp add: exponent2_tenth power_int_minus)
  have d: "(1 / 10 :: rat) / (1 / 72057594037927936) = 72057594037927936 / 10"
    by simp
  show ?thesis
    unfolding float64_def Let_def q d round_tenth by simp
qed

lemma csv_number_tenth:
  "csv_number example_lib ''0.1'' = Some (3602879701896397 / 36028797018963968)"
  "csv_number example_lib ''100'' = Some 100"
proof -
  have "decimal_literal ''0.1'' = Some (1 / 10)"
    by (simp add: decimal_literal_def Let_def)
  moreover have "integer_literal ''0.1'' = None"
    by (simp add: integer_literal_def)
  ultimately show "csv_number example_lib ''0.1'' = Some (3602879701896397 / 36028797018963968)"
    by (simp add: example_lib_def float64_tenth)
  show "csv_number example_lib ''100'' = Some 100"
    by (simp add: example_lib_def integer_literal_def)
qed

lemma read_csv_column_tenth:
  "read_csv_column example_lib [''0.1''] = [Number (3602879701896397 / 36028797018963968)]"
  "read_csv_column example_lib [''100''] = [Number 100]"
  by (simp_all add: read_csv_column_def csv_number_tenth del: not_None_eq)

lemma raw_tenth_cells:
  "rows raw_tenth =
     [\<lparr>r_date = ''1'', r_lkid = ''A'', r_ticker = ''X'', r_analyst = ''a'', r_sector = 0,
       r_pal = Number (3602879701896397 / 36028797018963968), r_exposure = Number 100\<rparr>]"
  "categories raw_tenth = [''Materials'']" "has_ticker raw_tenth = True"
  by (simp_all add: raw_tenth_def read_csv_column_tenth)

text \<open>
  Claim C9.  The claim asks that after step 2 \<open>pal\<close> holds the decimal the input
  string writes.  For a file whose only pal cell is written \<open>0.1\<close>, \<open>read_csv\<close> gets no
  \<open>dtype\<close> (the table of \<open>PandasReadCSVArgs\<close>, which asks for \<open>object\<close>, is not a field
  of the dataclass) and stores the float nearest to one tenth; step 2 applies
  \<open>decimal.Decimal\<close> to that float, and \<open>pal\<close> is
  0.1000000000000000055511151231257827021181583404541015625, not the 0.1 that
  \<open>Decimal\<close> gives for the string.
\<close>

theorem step2_decimal_of_float:
  "read_csv_column example_lib [''0.1''] = [Number (3602879701896397 / 36028797018963968)]
   \<and> step2_table example_lib \<lparr>categories = categories raw_tenth,
        has_ticker = has_ticker raw_tenth, rows = step1_rows (rows raw_tenth)\<rparr> = Inr typed_tenth
   \<and> map pal (rows typed_tenth) = [Some (3602879701896397 / 36028797018963968)]
   \<and> (3602879701896397 / 36028797018963968 :: rat)
       = 1000000000000000055511151231257827021181583404541015625 / 10 ^ 55
   \<and> Decimal example_lib ''0.1'' = Some (1 / 10)
   \<and> (3602879701896397 / 36028797018963968 :: rat) \<noteq> 1 / 10"
proof -
  have "step2_table example_lib \<lparr>categories = categories raw_tenth,
        has_ticker = has_ticker raw_tenth, rows = step1_rows (rows raw_tenth)\<rparr> = Inr typed_tenth"
    unfolding raw_tenth_cells by (simp add: typed_tenth_def step2_eval)
  moreover have "map pal (rows typed_tenth) = [Some (3602879701896397 / 36028797018963968)]"
    by (simp add: typed_tenth_def)
  moreover have "(3602879701896397 / 36028797018963968 :: rat)
       = 1000000000000000055511151231257827021181583404541015625 / 10 ^ 55"
    by simp
  moreover have "Decimal example_lib ''0.1'' = Some (1 / 10)"
    by (simp add: example_lib_def integer_literal_def decimal_literal_def Let_def)
  moreover have "(3602879701896397 / 36028797018963968 :: rat) \<noteq> 1 / 10"
    by simp
  ultimately show ?thesis
    by (simp only: read_csv_column_tenth(1) simp_thms)
qed

subsection \<open>Step 5: a zero fund value\<close>

lemma truediv_row_error:
  "pal r \<noteq> None \<Longrightarrow> truediv_row t r = Inl e \<Longrightarrow> e = DivisionByZero \<or> e = InvalidOperation"
  by (auto simp: truediv_row_def dec_div_def split: option.splits if_splits)

lemma truediv_row_zero:
  "pal r \<noteq> None \<Longrightarrow> \<exists>e. truediv_row 0 r = Inl e"
  by (auto simp: truediv_row_def dec_div_def split: option.splits)

lemma map_err_error:
  "\<forall>r\<in>set g. pal r \<noteq> None \<Longrightarrow> map_err (truediv_row t) g = Inl e \<Longrightarrow>
   e = DivisionByZero \<or> e = InvalidOperation"
proof (induction g)
  case Nil
  then show ?case by simp
next
  case (Cons r g)
  show ?case
  proof (cases "truediv_row t r")
    case (Inl e')
    with Cons.prems(2) have "e' = e" by simp
    with Inl Cons.prems(1) truediv_row_error [of r t e] show ?thesis by simp
  next
    case (Inr y)
    with Cons.prems(2) have "map_err (truediv_row t) g = Inl e"
      by (simp split: sum.splits)
    with Cons.IH Cons.prems(1) show ?thesis by simp
  qed
qed

lemma map_err_zero:
  assumes "g \<noteq> []" "\<forall>r\<in>set g. pal r \<noteq> None"
  shows "\<exists>e. map_err (truediv_row 0) g = Inl e"
proof -
  from assms(1) obtain r g' where g: "g = r # g'" by (cases g) auto
  with assms(2) have "pal r \<noteq> None" by simp
  from truediv_row_zero [OF this] show ?thesis by (auto simp: g)
qed

lemma step5_loop_zero:
  assumes "(d, g) \<in> set gs" "g \<noteq> []" "series_sum (map open_liq g) = 0"
      and "\<forall>(d', g') \<in> set gs. \<forall>r\<in>set g'. pal r \<noteq> None"
  shows "step5_loop gs df = Inl DivisionByZero \<or> step5_loop gs df = Inl InvalidOperation"
  using assms
proof (induction gs arbitrary: df)
  case Nil
  then show ?case by simp
next
  case (Cons x gs)
  obtain d0 g0 where x: "x = (d0, g0)" by (cases x)
  from Cons.prems(4) have p0: "\<forall>r\<in>set g0. pal r \<noteq> None"
    and ps: "\<forall>(d', g') \<in> set gs. \<forall>r\<in>set g'. pal r \<noteq> None"
    by (simp_all add: x)
  show ?case
  proof (cases "map_err (truediv_row (series_sum (map open_liq g0))) g0")
    case (Inl e)
    from map_err_error [OF p0 Inl] Inl show ?thesis by (auto simp: x Let_def)
  next
    case (Inr date_df')
    have "(d, g) \<noteq> (d0, g0)"
    proof
      assume "(d, g) = (d0, g0)"
      with Cons.prems(2,3) p0 map_err_zero [of g0] Inr show False by auto
    qed
    with Cons.prems(1) have "(d, g) \<in> set gs" unfolding x by auto
    from Cons.IH [OF this Cons.prems(2,3) ps, of "map (update_row5 date_df') df"] Inr
    show ?thesis by (simp add: x Let_def)
  qed
qed

text \<open>
  Claim C3 (amended).  In step 5, when the frame has a date whose total fund value (the
  sum of \<open>open_liq\<close> over the rows of that date) is zero, the step does not complete: the
  Decimal division raises \<open>DivisionByZero\<close>, or \<open>InvalidOperation\<close> when the pal divided is
  zero too, and the run ends there.  No not-a-number value is produced.
\<close>

theorem step5_zero_fund_value_raises:
  assumes "r0 \<in> set df"
      and "series_sum (map open_liq (filter (\<lambda>r. date r = date r0) df)) = 0"
      and "\<forall>r\<in>set df. pal r \<noteq> None"
  shows "step5_eager df = Inl DivisionByZero \<or> step5_eager df = Inl InvalidOperation"
proof -
  let ?src = "set_index_return_none df"
  let ?g = "filter (\<lambda>r. date r = date r0) ?src"
  have f: "filter (\<lambda>r. date r = d) ?src = set_index_return_none (filter (\<lambda>r. date r = d) df)" for d
    by (simp add: set_index_return_none_def filter_map comp_def)
  have m: "map open_liq (set_index_return_none xs) = map open_liq xs" for xs
    by (simp add: set_index_return_none_def comp_def)
  have 1: "(date r0, ?g) \<in> set (groupby_date ?src)"
    using assms(1) by (force simp: groupby_date_def set_index_return_none_def)
  have 2: "?g \<noteq> []"
    using assms(1) by (force simp: filter_empty_conv set_index_return_none_def)
  have 3: "series_sum (map open_liq ?g) = 0"
    using assms(2) by (simp add: f m)
  have 4: "\<forall>(d', g') \<in> set (groupby_date ?src). \<forall>r\<in>set g'. pal r \<noteq> None"
    using assms(3) by (auto simp: groupby_date_def set_index_return_none_def)
  show ?thesis
    unfolding step5_eager_def step5_rows_def by (rule step5_loop_zero [OF 1 2 3 4])
qed

theorem step5_zero_fund_value_raises_witness:
  "series_sum (map open_liq blotter_zero_liq) = 0
   \<and> step5_eager blotter_zero_liq = Inl InvalidOperation"
  using step5_zero_fund_value_raises [of "hd blotter_zero_liq" blotter_zero_liq]
  by (simp add: blotter_zero_liq_def position_def step5_eval)

theorem step5_zero_fund_value_counterexample:
  "map open_liq (step4_eager blotter_flat) = [Some 0]
   \<and> step5_eager (step4_eager blotter_flat) = Inl DivisionByZero"
proof -
  have "step4_eager blotter_flat = [(position 0 1 ''A'' ''X'' 10 10)\<lparr>open_liq := Some 0\<rparr>]"
    by (simp add: blotter_flat_def step4_eval)
  then show ?thesis by (simp add: position_def step5_eval)
qed

subsection \<open>Eager and copy mode\<close>

lemma df_task_eager:
  "df_task f h r ex True =
     (case f h r ex of Inl e \<Rightarrow> Inl e
      | Inr (h2, res) \<Rightarrow> if res \<noteq> r then Inl RuntimeError else Inr (h2, res))"
  by (simp add: df_task_def split: sum.splits prod.splits)

lemma df_task_copy:
  "df_task f h r ex False = f (h @ [h ! r]) (length h) ex"
  by (simp add: df_task_def copy_def split: sum.splits)

lemma step2_fresh:
  assumes "step2_table lib t = Inr t2"
  shows "\<forall>r\<in>set (rows t2). open_liq r = None \<and> return r = None"
proof
  fix r assume "r \<in> set (rows t2)"
  then obtain j where j: "j < length (rows t2)" and r: "r = rows t2 ! j"
    by (metis in_set_conv_nth)
  from j step2_table_rows(1) [OF assms] have "j < length (rows t)" by simp
  from step2_table_rows(2) [OF assms this] show "open_liq r = None \<and> return r = None"
    by (auto simp: r typed_row_def)
qed

lemma step3_fresh:
  "\<forall>r\<in>set (rows t). open_liq r = None \<and> return r = None \<Longrightarrow>
   \<forall>r\<in>set (rows (step3_table t)). open_liq r = None \<and> return r = None"
  by (auto simp: step3_table_def)

lemma set_open_liq_none_id:
  "\<forall>r\<in>set df. open_liq r = None \<Longrightarrow> set_open_liq_none df = df"
  by (simp add: set_open_liq_none_def map_idI)

lemma set_index_return_none_id:
  "\<forall>r\<in>set df. label r = index r \<and> return r = None \<Longrightarrow> set_index_return_none df = df"
  by (simp add: set_index_return_none_def map_idI)

lemma list_all_map_eq:
  "map f xs = map g xs \<Longrightarrow> x \<in> set xs \<Longrightarrow> f x = g x"
  by (simp add: map_eq_conv)

lemma six_steps_frames:
  assumes "step2_table lib \<lparr>categories = c, has_ticker = ht, rows = step1_rows rs\<rparr> = Inr t2"
  shows "set_open_liq_none (rows (step3_table t2)) = rows (step3_table t2)"
    and "set_index_return_none (step4_eager (rows (step3_table t2)))
           = step4_eager (rows (step3_table t2))"
proof -
  let ?df3 = "rows (step3_table t2)"
  have f3: "\<forall>r\<in>set ?df3. open_liq r = None \<and> return r = None"
    by (rule step3_fresh [OF step2_fresh [OF assms]])
  then show "set_open_liq_none ?df3 = ?df3"
    by (intro set_open_liq_none_id) simp
  have l: "map label ?df3 = map index ?df3"
    using step2_table_label [OF assms] step2_table_index [OF assms]
    by (simp add: step3_table_index step1_rows_index step1_rows_def)
  have "map label (step4_eager ?df3) = map index (step4_eager ?df3)"
    by (simp add: step4_eager_index l)
  then have a: "\<forall>r\<in>set (step4_eager ?df3). label r = index r"
    by (simp add: map_eq_conv)
  have "map return (step4_eager ?df3) = map return ?df3"
    by (simp add: step4_eager_index)
  also have "\<dots> = map (\<lambda>r. None) ?df3" using f3 by simp
  finally have "map return (step4_eager ?df3) = map (\<lambda>r. None) (step4_eager ?df3)"
    by (simp add: step4_eager_def step4_rows_map set_open_liq_none_def comp_def)
  then have b: "\<forall>r\<in>set (step4_eager ?df3). return r = None"
    by (simp add: map_eq_conv)
  from a b show "set_index_return_none (step4_eager ?df3) = step4_eager ?df3"
    by (intro set_index_return_none_id) simp
qed


lemma main_eager:
  "main lib True t = (case six_steps lib t of Inl e \<Rightarrow> Inl e | Inr t6 \<Rightarrow> Inr (Typed t6))"
proof (cases "step2_table lib \<lparr>categories = categories t, has_ticker = has_ticker t,
                            rows = step1_rows (rows t)\<rparr>")
  case (Inl e)
  then show ?thesis
    by (simp add: main_def PIPELINE_STEPS_def transform_def df_task_eager six_steps_def
          step1_create_pk_def step2_sector_pal_date_def)
next
  case (Inr t2)
  note fr = six_steps_frames [OF Inr]
  show ?thesis
  proof (cases "step5_eager (step4_eager (rows (step3_table t2)))")
    case (Inl e)
    then show ?thesis
      using Inr fr
      by (simp add: main_def PIPELINE_STEPS_def transform_def df_task_eager six_steps_def
          step1_create_pk_def step2_sector_pal_date_def step3_impute_ticker_def
          step4_compute_open_liq_def step5_compute_fund_value_def step6_agg_daily_def
          step4_eager_def step5_eager_def Let_def)
  next
    case (Inr df5)
    then show ?thesis
      using \<open>step2_table lib _ = Inr t2\<close> fr
      by (simp add: main_def PIPELINE_STEPS_def transform_def df_task_eager six_steps_def
          step1_create_pk_def step2_sector_pal_date_def step3_impute_ticker_def
          step4_compute_open_liq_def step5_compute_fund_value_def step6_agg_daily_def
          step4_eager_def step5_eager_def Let_def)
  qed
qed

lemma main_copy:
  "main lib False t = (case six_steps lib t of Inl e \<Rightarrow> Inl e | Inr t6 \<Rightarrow> Inr (Typed t6))"
proof (cases "step2_table lib \<lparr>categories = categories t, has_ticker = has_ticker t,
                            rows = step1_rows (rows t)\<rparr>")
  case (Inl e)
  then show ?thesis
    by (simp add: main_def PIPELINE_STEPS_def transform_def df_task_copy six_steps_def
          step1_create_pk_def step2_sector_pal_date_def update_df_def)
next
  case (Inr t2)
  note fr = six_steps_frames [OF Inr]
  show ?thesis
  proof (cases "step5_eager (step4_eager (rows (step3_table t2)))")
    case (Inl e)
    then show ?thesis
      using Inr fr
      by (simp add: main_def PIPELINE_STEPS_def transform_def df_task_copy six_steps_def
          step1_create_pk_def step2_sector_pal_date_def step3_impute_ticker_def
          step4_compute_open_liq_def step5_compute_fund_value_def step6_agg_daily_def
          step4_eager_def step5_eager_def update_df_def Let_def nth_append)
  next
    case (Inr df5)
    then show ?thesis
      using \<open>step2_table lib _ = Inr t2\<close> fr
      by (simp add: main_def PIPELINE_STEPS_def transform_def df_task_copy six_steps_def
          step1_create_pk_def step2_sector_pal_date_def step3_impute_ticker_def
          step4_compute_open_liq_def step5_compute_fund_value_def step6_agg_daily_def
          step4_eager_def step5_eager_def update_df_def Let_def nth_append)
  qed
qed


text \<open>
  Claim C10.  Running the six steps in eager mode (every task writes the frame of the
  executor) and in copy mode (every task writes a copy, the groups are cut from the
  frame of the executor, and the driver stores the returned frame) ends with the same
  frame in the executor, or with the same error.
\<close>

theorem eager_and_copy_agree:
  "main lib True t = main lib False t"
proof -
  have "main lib True t = (case six_steps lib t of Inl e \<Rightarrow> Inl e | Inr t6 \<Rightarrow> Inr (Typed t6))"
    by (rule main_eager)
  also have "\<dots> = main lib False t"
    by (rule main_copy [symmetric])
  finally show ?thesis .
qed

subsection \<open>Step 6: aggregates\<close>

lemma reset_index_fields:
  "map date (reset_index df) = map date df" "map lkid (reset_index df) = map lkid df"
proof -
  have "map (f \<circ> (\<lambda>(i, r). r\<lparr>index := label r, label := i\<rparr>)) (enumerate 0 df) = map f df"
    if "\<And>r i. f (r\<lparr>index := label r, label := i\<rparr>) = f r" for f :: "row \<Rightarrow> 'a"
  proof -
    have "map (f \<circ> (\<lambda>(i, r). r\<lparr>index := label r, label := i\<rparr>)) (enumerate 0 df)
            = map (f \<circ> snd) (enumerate 0 df)"
      by (rule map_cong) (auto simp: that)
    then show ?thesis by (simp flip: map_map)
  qed
  from this [of date] this [of lkid]
  show "map date (reset_index df) = map date df" "map lkid (reset_index df) = map lkid df"
    by (simp_all add: reset_index_def)
qed

lemma reset_index_wf:
  assumes "map label df = [0 ..< length df]"
  shows "reset_index df = map (\<lambda>r. r\<lparr>index := label r\<rparr>) df"
proof -
  have "enumerate 0 df = zip (map label df) df"
    by (simp add: enumerate_eq_zip assms)
  also have "\<dots> = map (\<lambda>r. (label r, r)) df"
    by (induction df) simp_all
  finally show ?thesis by (simp add: reset_index_def comp_def)
qed

lemma row_group_reset:
  assumes "map label df = [0 ..< length df]"
  shows "row_group (reset_index df) k = map (\<lambda>r. r\<lparr>index := label r\<rparr>) (row_group df k)"
  by (simp add: reset_index_wf [OF assms] row_group_def filter_map comp_def)

lemma group_keys_reset:
  "group_keys (reset_index df) = group_keys df"
proof -
  have "map (\<lambda>r. (date r, lkid r)) xs = zip (map date xs) (map lkid xs)" for xs :: "row list"
    by (induction xs) simp_all
  then show ?thesis by (simp add: group_keys_def reset_index_fields)
qed

lemma row_group_nonempty: "k \<in> set (group_keys df) \<Longrightarrow> row_group df k \<noteq> []"
  by (auto simp: group_keys_def row_group_def filter_empty_conv)

lemma relabel_mem:
  assumes "r \<in> set (relabel xs)"
  shows "\<exists>r'\<in>set xs. \<exists>i. r = r'\<lparr>label := i\<rparr>"
proof -
  from assms obtain p where p: "p \<in> set (enumerate 0 xs)" and r: "r = (snd p)\<lparr>label := fst p\<rparr>"
    by (auto simp: relabel_def)
  from p have "fst p < length xs" and "xs ! fst p = snd p"
    by (simp_all add: in_set_enumerate_eq)
  then have "snd p \<in> set xs" using nth_mem [of "fst p" xs] by simp
  with r show ?thesis by blast
qed

lemma update_row6_notnull:
  assumes "notnull (update_row6 another r)" "pal r = None"
  shows "label r < length another"
  using assms by (auto simp: update_row6_def notnull_def split: if_splits)

lemma sorted_min_list_hd:
  assumes "sorted xs" "xs \<noteq> []"
  shows "min_list xs = hd (xs :: nat list)"
proof -
  from assms(2) obtain x xs' where xs: "xs = x # xs'" by (cases xs) auto
  have "Min (set xs) = x"
    using assms(1) by (intro Min_eqI) (auto simp: xs)
  then show ?thesis using min_list_Min [OF assms(2)] by (simp only: xs list.sel)
qed

lemma upt_filter_sorted:
  assumes "map label df = [0 ..< length df]"
  shows "sorted (map label (filter P df))"
proof -
  have "sorted (map label df)" by (simp add: assms)
  then show ?thesis by (rule sorted_filter)
qed


lemma agg_group_reset:
  assumes "map label df = [0 ..< length df]"
  shows "agg_group (reset_index df) k =
           \<lparr>g_date = fst k, g_lkid = snd k,
            g_analyst = first_alphabetical (map analyst (row_group df k)),
            g_sector = first_alphabetical (map sector (row_group df k)),
            g_pal = object_sum (map pal (row_group df k)),
            g_exposure = object_sum (map exposure (row_group df k)),
            g_return = object_sum (map return (row_group df k)),
            g_index = get_first_index_label (map label (row_group df k))\<rparr>"
  by (simp add: agg_group_def row_group_reset [OF assms] Let_def comp_def)

lemma step6_rows_mem:
  assumes lab: "map label df = [0 ..< length df]" and r: "r \<in> set (step6_rows df)"
  shows "\<exists>k\<in>set (group_keys df). \<exists>r2 i.
           r = r2\<lparr>date := fst k, lkid := snd k,
                  analyst := first_alphabetical (map analyst (row_group df k)),
                  sector := first_alphabetical (map sector (row_group df k)),
                  pal := Some (object_sum (map pal (row_group df k))),
                  exposure := Some (object_sum (map exposure (row_group df k))),
                  return := Some (object_sum (map return (row_group df k))),
                  label := i\<rparr>"
proof -
  let ?df1 = "reset_index df"
  let ?A = "groupby_date_lkid_agg ?df1"
  let ?df2 = "set_index_index (set_values_none ?df1)"
  from r have "r \<in> set (relabel (sort_key (\<lambda>r. (lkid r, date r))
                 (filter notnull (map (update_row6 ?A) ?df2))))"
    by (simp add: step6_rows_def Let_def)
  from relabel_mem [OF this] obtain r' i where
    r': "r' \<in> set (filter notnull (map (update_row6 ?A) ?df2))" and ri: "r = r'\<lparr>label := i\<rparr>"
    by auto
  from r' obtain r2 where r2: "r2 \<in> set ?df2" and u: "r' = update_row6 ?A r2" and nn: "notnull r'"
    by auto
  from r2 have "pal r2 = None"
    by (auto simp: set_index_index_def set_values_none_def)
  from update_row6_notnull [OF nn [unfolded u] this] have j: "label r2 < length ?A" .
  let ?k = "group_keys df ! label r2"
  have len: "length ?A = length (group_keys df)"
    by (simp add: groupby_date_lkid_agg_def group_keys_reset)
  have k: "?k \<in> set (group_keys df)" using j len by simp
  have a: "?A ! label r2 = agg_group ?df1 ?k"
    using j len by (simp add: groupby_date_lkid_agg_def group_keys_reset)
  have "r' = r2\<lparr>date := fst ?k, lkid := snd ?k,
                  analyst := first_alphabetical (map analyst (row_group df ?k)),
                  sector := first_alphabetical (map sector (row_group df ?k)),
                  pal := Some (object_sum (map pal (row_group df ?k))),
                  exposure := Some (object_sum (map exposure (row_group df ?k))),
                  return := Some (object_sum (map return (row_group df ?k)))\<rparr>"
    using j by (simp add: u update_row6_def Let_def a agg_group_reset [OF lab])
  with ri k show ?thesis by blast
qed

text \<open>
  What step 6 computes.  Every row of the output is the aggregate of the
  (date, lkid) group of its own key: its analyst is the least analyst of the group, its
  sector is the least category code of the group, and its pal, exposure and return are
  the sums over the group.  The label \<open>get_first_index_label\<close> computes for a group is
  the least row_index of the group.
\<close>

lemma step6_group_aggregates:
  assumes "wf_frame df"
  shows "(\<forall>r\<in>set (step6_rows df).
            let g = row_group df (date r, lkid r) in
            g \<noteq> []
            \<and> analyst r = first_alphabetical (map analyst g)
            \<and> sector r = first_alphabetical (map sector g)
            \<and> pal r = Some (object_sum (map pal g))
            \<and> exposure r = Some (object_sum (map exposure g))
            \<and> return r = Some (object_sum (map return g)))
       \<and> (\<forall>k\<in>set (group_keys df).
            g_index (agg_group (reset_index df) k)
              = first_alphabetical (map index (row_group df k)))"
proof (intro conjI ballI)
  from assms have lab: "map label df = [0 ..< length df]" by (simp add: wf_frame_def)
  fix r assume "r \<in> set (step6_rows df)"
  from step6_rows_mem [OF lab this] obtain k r2 i where
    k: "k \<in> set (group_keys df)" and
    r: "r = r2\<lparr>date := fst k, lkid := snd k,
                  analyst := first_alphabetical (map analyst (row_group df k)),
                  sector := first_alphabetical (map sector (row_group df k)),
                  pal := Some (object_sum (map pal (row_group df k))),
                  exposure := Some (object_sum (map exposure (row_group df k))),
                  return := Some (object_sum (map return (row_group df k))),
                  label := i\<rparr>"
    by blast
  have key: "(date r, lkid r) = k" by (simp add: r)
  show "let g = row_group df (date r, lkid r) in
            g \<noteq> []
            \<and> analyst r = first_alphabetical (map analyst g)
            \<and> sector r = first_alphabetical (map sector g)
            \<and> pal r = Some (object_sum (map pal g))
            \<and> exposure r = Some (object_sum (map exposure g))
            \<and> return r = Some (object_sum (map return g))"
    unfolding Let_def key using row_group_nonempty [OF k] by (simp add: r)
next
  from assms have lab: "map label df = [0 ..< length df]" by (simp add: wf_frame_def)
  from assms have li: "map label df = map index df" by (simp add: wf_frame_def)
  fix k assume k: "k \<in> set (group_keys df)"
  have ne: "map label (row_group df k) \<noteq> []" using row_group_nonempty [OF k] by simp
  have so: "sorted (map label (row_group df k))"
    unfolding row_group_def by (rule upt_filter_sorted [OF lab])
  have e: "map label (row_group df k) = map index (row_group df k)"
    using li unfolding row_group_def by (induction df) auto
  have "g_index (agg_group (reset_index df) k) = hd (map label (row_group df k))"
    by (simp add: agg_group_reset [OF lab] get_first_index_label_def)
  also have "\<dots> = min_list (map label (row_group df k))"
    by (rule sorted_min_list_hd [OF so ne, symmetric])
  finally show "g_index (agg_group (reset_index df) k)
                  = first_alphabetical (map index (row_group df k))"
    by (simp add: first_alphabetical_def e)
qed

lemmas step6_eval = step6_rows_def reset_index_def groupby_date_lkid_agg_def group_keys_def
  agg_group_def row_group_def set_values_none_def set_index_index_def update_row6_def
  notnull_def relabel_def get_first_index_label_def first_alphabetical_def object_sum_def
  dec_add_def enumerate_eq_zip upt_rec Let_def

lemma collision_step2_to_5:
  "step2_table example_lib \<lparr>categories = categories raw_collision,
       has_ticker = has_ticker raw_collision, rows = step1_rows (rows raw_collision)\<rparr>
     = Inr \<lparr>categories = [''Materials''], has_ticker = True,
            rows = [position 0 1 ''A'' ''X'' 10 20, position 1 1 ''A'' ''X'' 10 10,
                    position 2 1 ''B'' ''X'' 30 30]\<rparr>"
  "step5_eager (step4_eager [position 0 1 ''A'' ''X'' 10 20, position 1 1 ''A'' ''X'' 10 10,
                    position 2 1 ''B'' ''X'' 30 30]) = Inr returns_collision"
proof -
  show "step2_table example_lib \<lparr>categories = categories raw_collision,
       has_ticker = has_ticker raw_collision, rows = step1_rows (rows raw_collision)\<rparr>
     = Inr \<lparr>categories = [''Materials''], has_ticker = True,
            rows = [position 0 1 ''A'' ''X'' 10 20, position 1 1 ''A'' ''X'' 10 10,
                    position 2 1 ''B'' ''X'' 30 30]\<rparr>"
    by (simp add: raw_collision_def step2_eval position_def)
  have "step4_eager [position 0 1 ''A'' ''X'' 10 20, position 1 1 ''A'' ''X'' 10 10,
                    position 2 1 ''B'' ''X'' 30 30]
          = [(position 0 1 ''A'' ''X'' 20 30)\<lparr>open_liq := Some 10\<rparr>,
             position 1 1 ''A'' ''X'' 10 10,
             (position 2 1 ''B'' ''X'' 30 30)\<lparr>open_liq := Some 0\<rparr>]"
    by (simp add: step4_eval)
  then show "step5_eager (step4_eager [position 0 1 ''A'' ''X'' 10 20, position 1 1 ''A'' ''X'' 10 10,
                    position 2 1 ''B'' ''X'' 30 30]) = Inr returns_collision"
    by (simp add: returns_collision_def position_def step5_eval)
qed

text \<open>
  Claim C5.  The claim asks for one output row per (date, lkid) pair.  On this input
  the frame entering step 6 has the two pairs (1, A) and (1, B), and the frame step 6
  returns has the single row of (1, A): \<open>update\<close> aligns the aggregates, which are
  labelled by group number, with the row labels, so the aggregate of (1, B) lands on
  row 1, whose \<open>open_liq\<close> is null since step 4, and \<open>dropna\<close> removes it.
\<close>

theorem step6_loses_group:
  "main example_lib True raw_collision
     = Inr (Typed \<lparr>categories = [''Materials''], has_ticker = True,
                    rows = step6_rows returns_collision\<rparr>)
   \<and> group_keys returns_collision = [(1, ''A''), (1, ''B'')]
   \<and> map (\<lambda>r. (date r, lkid r)) (step6_rows returns_collision) = [(1, ''A'')]"
proof -
  have "six_steps example_lib raw_collision
     = Inr \<lparr>categories = [''Materials''], has_ticker = True, rows = step6_rows returns_collision\<rparr>"
    by (simp add: six_steps_def collision_step2_to_5 step3_table_def del: One_nat_def)
  then have "main example_lib True raw_collision
     = Inr (Typed \<lparr>categories = [''Materials''], has_ticker = True,
                    rows = step6_rows returns_collision\<rparr>)"
    by (simp add: main_eager)
  moreover have "group_keys returns_collision = [(1, ''A''), (1, ''B'')]"
    by (simp add: returns_collision_def group_keys_def)
  moreover have "map (\<lambda>r. (date r, lkid r)) (step6_rows returns_collision) = [(1, ''A'')]"
    by (simp add: returns_collision_def step6_eval)
  ultimately show ?thesis by simp
qed

lemma sectors_step2_to_5:
  "step2_table example_lib \<lparr>categories = categories raw_sectors,
       has_ticker = has_ticker raw_sectors, rows = step1_rows (rows raw_sectors)\<rparr>
     = Inr \<lparr>categories = renamed_categories, has_ticker = True,
            rows = [position 0 1 ''A'' ''X'' 10 15,
                    (position 1 1 ''A'' ''Y'' 20 25)\<lparr>sector := 1\<rparr>]\<rparr>"
  "step5_eager (step4_eager [position 0 1 ''A'' ''X'' 10 15,
                    (position 1 1 ''A'' ''Y'' 20 25)\<lparr>sector := 1\<rparr>]) = Inr returns_sectors"
proof -
  show "step2_table example_lib \<lparr>categories = categories raw_sectors,
       has_ticker = has_ticker raw_sectors, rows = step1_rows (rows raw_sectors)\<rparr>
     = Inr \<lparr>categories = renamed_categories, has_ticker = True,
            rows = [position 0 1 ''A'' ''X'' 10 15,
                    (position 1 1 ''A'' ''Y'' 20 25)\<lparr>sector := 1\<rparr>]\<rparr>"
    by (simp add: raw_sectors_def step2_eval position_def renamed_categories_def)
  have "step4_eager [position 0 1 ''A'' ''X'' 10 15,
                    (position 1 1 ''A'' ''Y'' 20 25)\<lparr>sector := 1\<rparr>]
          = [(position 0 1 ''A'' ''X'' 10 15)\<lparr>open_liq := Some 5\<rparr>,
             (position 1 1 ''A'' ''Y'' 20 25)\<lparr>sector := 1, open_liq := Some 5\<rparr>]"
    by (simp add: step4_eval)
  then show "step5_eager (step4_eager [position 0 1 ''A'' ''X'' 10 15,
                    (position 1 1 ''A'' ''Y'' 20 25)\<lparr>sector := 1\<rparr>]) = Inr returns_sectors"
    by (simp add: returns_sectors_def position_def step5_eval)
qed

lemma step6_group_aggregates_example:
  "map pal (step6_rows returns_sectors) = [Some 30]
   \<and> map return (step6_rows returns_sectors) = [Some 3]
   \<and> map sector (step6_rows returns_sectors) = [0]
   \<and> g_index (agg_group (reset_index returns_sectors) (1, ''A'')) = 0"
proof -
  have wf: "wf_frame returns_sectors"
    by (simp add: wf_frame_def returns_sectors_def upt_rec)
  have out: "map (\<lambda>r. (date r, lkid r)) (step6_rows returns_sectors) = [(1, ''A'')]"
    by (simp add: returns_sectors_def step6_eval)
  then obtain r where r: "step6_rows returns_sectors = [r]" and k: "date r = 1" "lkid r = ''A''"
    by auto
  have g: "row_group returns_sectors (1, ''A'') = returns_sectors"
    by (simp add: row_group_def returns_sectors_def)
  have keys: "group_keys returns_sectors = [(1, ''A'')]"
    by (simp add: group_keys_def returns_sectors_def)
  from step6_group_aggregates [OF wf] show ?thesis
    by (simp add: r k g keys) (simp add: returns_sectors_def first_alphabetical_def object_sum_def dec_add_def)
qed

text \<open>
  Claim C6.  The claim asks for the smallest sector present in the group, and
  \<open>first_alphabetical\<close> is named for it.  On this input the group (1, A) entering step 6
  holds the sectors \<open>"Materials"\<close> and \<open>"Information Technology"\<close>, and the output row
  carries \<open>"Materials"\<close>: \<open>sector\<close> is an ordered categorical, its minimum follows the
  order of the categories, and the rename of step 2 left \<open>"Information Technology"\<close> at
  the place of \<open>"Technology"\<close>, after \<open>"Materials"\<close>.
\<close>

theorem step6_sector_not_alphabetical:
  "main example_lib True raw_sectors
     = Inr (Typed \<lparr>categories = renamed_categories, has_ticker = True,
                    rows = step6_rows returns_sectors\<rparr>)
   \<and> map (\<lambda>r. renamed_categories ! sector r) (row_group returns_sectors (1, ''A''))
       = [''Materials'', ''Information Technology'']
   \<and> map (\<lambda>r. renamed_categories ! sector r) (step6_rows returns_sectors) = [''Materials'']
   \<and> ''Information Technology'' < ''Materials''"
proof -
  have "six_steps example_lib raw_sectors
     = Inr \<lparr>categories = renamed_categories, has_ticker = True, rows = step6_rows returns_sectors\<rparr>"
    by (simp add: six_steps_def sectors_step2_to_5 step3_table_def del: One_nat_def)
  then have "main example_lib True raw_sectors
     = Inr (Typed \<lparr>categories = renamed_categories, has_ticker = True,
                    rows = step6_rows returns_sectors\<rparr>)"
    by (simp add: main_eager)
  moreover have "map (\<lambda>r. renamed_categories ! sector r) (row_group returns_sectors (1, ''A''))
       = [''Materials'', ''Information Technology'']"
    by (simp add: returns_sectors_def row_group_def renamed_categories_def)
  moreover have "map (\<lambda>r. renamed_categories ! sector r) (step6_rows returns_sectors) = [''Materials'']"
    by (simp add: returns_sectors_def step6_eval renamed_categories_def)
  moreover have "''Information Technology'' < ''Materials''" by simp
  ultimately show ?thesis by simp
qed

subsection \<open>The frames between the steps\<close>

text \<open>
  The frames of the pipeline meet the hypothesis \<open>wf_frame\<close> of the statements about
  steps 4 and 6: labels and row_index are the row positions when step 4 starts and when
  step 6 starts.
\<close>

lemma pipeline_frames_wf:
  assumes "step2_table lib \<lparr>categories = c, has_ticker = ht, rows = step1_rows rs\<rparr> = Inr t2"
  shows "wf_frame (rows (step3_table t2))"
    and "step5_eager (step4_eager (rows (step3_table t2))) = Inr df5 \<Longrightarrow> wf_frame df5"
proof -
  let ?df3 = "rows (step3_table t2)"
  have n: "length (step1_rows rs) = length rs" by (simp add: step1_rows_def)
  have i3: "map index ?df3 = [0 ..< length rs]"
    using step2_table_index [OF assms] by (simp add: step3_table_index step1_rows_index)
  have l3: "map label ?df3 = [0 ..< length rs]"
    using step2_table_label [OF assms] by (simp add: step3_table_index n)
  have len3: "length ?df3 = length rs"
    using i3 by (metis length_map length_upt diff_zero)
  show "wf_frame ?df3" by (simp add: wf_frame_def i3 l3 len3)
  assume s5: "step5_eager (step4_eager ?df3) = Inr df5"
  let ?df4 = "step4_eager ?df3"
  have i4: "map index ?df4 = [0 ..< length rs]" by (simp add: step4_eager_index i3)
  from s5 have "map index df5 = map index (set_index_return_none ?df4)
              \<and> map label df5 = map label (set_index_return_none ?df4)"
    unfolding step5_eager_def step5_rows_def by (rule step5_loop_index)
  then have i5: "map index df5 = [0 ..< length rs]" and l5: "map label df5 = [0 ..< length rs]"
    using i4 by (simp_all add: set_index_return_none_def comp_def)
  have len5: "length df5 = length rs"
    using i5 by (metis length_map length_upt diff_zero)
  show "wf_frame df5" by (simp add: wf_frame_def i5 l5 len5)
qed

end
